theory Spec2Isabelle
  imports
    Main
    "HOL-Library.Word"
    "HOL-Library.Signed_Division"
    "HOL-Library.Log_Nat"
begin

unbundle bit_operations_syntax

section \<open>Proof of work and difficulty retargeting (src/pow.cpp)\<close>

text \<open>
  The embedding follows \<^verbatim>\<open>src/pow.cpp\<close>.  Unsigned C++ integers are words
  (\<^verbatim>\<open>uint32_t\<close> is \<open>32 word\<close>, \<^verbatim>\<open>arith_uint256\<close> and \<^verbatim>\<open>uint256\<close> are \<open>256 word\<close>), so
  their arithmetic wraps as in the program.  Signed C++ integers (\<^verbatim>\<open>int\<close>, \<^verbatim>\<open>int64_t\<close>)
  are stored as words of their width and read with \<open>sint\<close>; arithmetic on them is
  carried out in \<open>int\<close>, which agrees with the program on every run without signed
  overflow (signed overflow is undefined behaviour in C++).  Every conversion of a
  signed value to an unsigned type is written out.
\<close>

subsection \<open>Data model\<close>

type_synonym uint32 = "32 word"
type_synonym int32 = "32 word"
type_synonym int64 = "64 word"
type_synonym uint256 = "256 word"
type_synonym arith_uint256 = "256 word"

text \<open>
  \<^verbatim>\<open>assert\<close> failures, the \<^verbatim>\<open>uint_error\<close> exception that the 256-bit division throws
  on a zero divisor, and the trap of the built-in \<^verbatim>\<open>%\<close> on a zero divisor.
\<close>

datatype error = AssertionFailure | uint_error | IntegerDivideByZero

text \<open>
  \<^verbatim>\<open>CBlockIndex\<close> (declared in \<^verbatim>\<open>chain.h\<close>): the fields that \<^verbatim>\<open>pow.cpp\<close> reads.  The
  nullable pointer \<^verbatim>\<open>pprev\<close> is an option; the genesis block has \<open>None\<close>.
\<close>

datatype CBlockIndex =
  CBlockIndex (nHeight: int32) (nTime: uint32) (nBits: uint32) (pprev: "CBlockIndex option")

text \<open>\<^verbatim>\<open>CBlockHeader\<close> (declared in \<^verbatim>\<open>primitives/block.h\<close>): only its time is read.\<close>

datatype CBlockHeader = CBlockHeader (header_nTime: uint32)

text \<open>
  \<^verbatim>\<open>Consensus::Params\<close> (declared in \<^verbatim>\<open>consensus/params.h\<close>): the members that
  \<^verbatim>\<open>pow.cpp\<close> reads.  The two member functions \<^verbatim>\<open>DifficultyAdjustmentInterval()\<close> and
  \<^verbatim>\<open>DifficultyAdjustmentInterval_Fork()\<close> are not part of \<^verbatim>\<open>pow.cpp\<close>; the values they
  return are taken as parameters.
\<close>

record Params =
  powLimit :: uint256
  nPowTargetTimespan :: int64
  nPowTargetTimespan_Fork :: int64
  nPowTargetSpacing :: int64
  DifficultyAdjustmentInterval :: int64
  DifficultyAdjustmentInterval_Fork :: int64
  HardFork_Height :: int32
  fPowAllowMinDifficultyBlocks :: bool
  fPowNoRetargeting :: bool

text \<open>\<^verbatim>\<open>GetBlockTime()\<close> widens the unsigned 32-bit time to \<^verbatim>\<open>int64_t\<close>.\<close>

definition GetBlockTime :: "CBlockIndex \<Rightarrow> int" where
  "GetBlockTime pindex = uint (nTime pindex)"

definition header_GetBlockTime :: "CBlockHeader \<Rightarrow> int" where
  "header_GetBlockTime pblock = uint (header_nTime pblock)"

text \<open>\<^verbatim>\<open>UintToArith256\<close> reinterprets the 256-bit value as a number.\<close>

definition UintToArith256 :: "uint256 \<Rightarrow> arith_uint256" where
  "UintToArith256 a = a"

subsection \<open>The 256-bit arithmetic type (arith\_uint256)\<close>

text \<open>
  Modelled from the spec: \<^verbatim>\<open>arith_uint256::bits()\<close>, whose definition is in
  \<^verbatim>\<open>arith_uint256.cpp\<close>.  The bit length of the magnitude: the position of the
  highest set bit plus one, and 0 for zero.
\<close>

definition bits :: "arith_uint256 \<Rightarrow> nat" where
  "bits a = floorlog 2 (unat a)"

text \<open>
  Modelled from the spec: \<^verbatim>\<open>arith_uint256::SetCompact\<close> (section 4.1, \<open>decode\<close>).
  The compact value has an 8-bit exponent \<open>nSize\<close> (a byte length) and a 24-bit
  mantissa whose top bit is the sign.  The result is the magnitude
  \<open>mantissa * 256 ^ (nSize - 3)\<close> cut to 256 bits, the negative flag (sign bit set
  on a nonzero mantissa) and the overflow flag (a nonzero mantissa that does not
  fit into 256 bits at that exponent).
\<close>

definition SetCompact :: "uint32 \<Rightarrow> arith_uint256 \<times> bool \<times> bool" where
  "SetCompact nCompact =
     (let nSize = unat (drop_bit 24 nCompact);
          nWord = (if nSize \<le> 3
                   then drop_bit (8 * (3 - nSize)) (nCompact AND 0x007fffff)
                   else nCompact AND 0x007fffff);
          this = (if nSize \<le> 3 then ucast nWord
                  else push_bit (8 * (nSize - 3)) (ucast nWord));
          fNegative = (nWord \<noteq> 0 \<and> nCompact AND 0x00800000 \<noteq> 0);
          fOverflow = (nWord \<noteq> 0 \<and> (nSize > 34 \<or>
                                       (nWord > 0xff \<and> nSize > 33) \<or>
                                       (nWord > 0xffff \<and> nSize > 32)))
      in (this, fNegative, fOverflow))"

text \<open>
  Modelled from the spec: \<^verbatim>\<open>arith_uint256::GetCompact\<close> (section 4.1, \<open>encode\<close>).
  The exponent is the byte length of the magnitude and the mantissa its top three
  bytes; when that mantissa would have the sign bit set, it is shifted down by one
  byte and the exponent is increased by one.
\<close>

definition GetCompact :: "arith_uint256 \<Rightarrow> uint32" where
  "GetCompact a =
     (let nSize = (bits a + 7) div 8;
          nCompact = (if nSize \<le> 3 then push_bit (8 * (3 - nSize)) (ucast a)
                      else ucast (drop_bit (8 * (nSize - 3)) a)) :: uint32;
          sign = (nCompact AND 0x00800000 \<noteq> 0);
          nCompact' = (if sign then drop_bit 8 nCompact else nCompact);
          nSize' = (if sign then nSize + 1 else nSize)
      in nCompact' OR push_bit 24 (of_nat nSize'))"

subsection \<open>CalculateNextWorkRequired\<close>

text \<open>
  The clamp of lines 101 to 108, on \<^verbatim>\<open>int64_t\<close> values: \<^verbatim>\<open>/\<close> truncates towards
  zero (\<open>sdiv\<close>).
\<close>

definition clamp_timespan :: "int \<Rightarrow> int \<Rightarrow> int" where
  "clamp_timespan nActualTimespan nTargetTimespan =
     (let a = (if nActualTimespan < nTargetTimespan sdiv 4
               then nTargetTimespan sdiv 4 else nActualTimespan)
      in if a > nTargetTimespan * 4 then nTargetTimespan * 4 else a)"

text \<open>
  \<^verbatim>\<open>fShift\<close> of line 119.  \<^verbatim>\<open>bits()\<close> returns \<^verbatim>\<open>unsigned int\<close>, so the subtraction
  wraps when the limit is zero.
\<close>

definition fShift :: "arith_uint256 \<Rightarrow> arith_uint256 \<Rightarrow> bool" where
  "fShift bnNew bnPowLimit =
     ((of_nat (bits bnNew) :: uint32) > of_nat (bits bnPowLimit) - 1)"

text \<open>
  Lines 113 to 128: the magnitude before the clamp to the limit.  The type
  \<^verbatim>\<open>arith_uint256\<close> multiplies by a \<^verbatim>\<open>uint32_t\<close> or by another \<^verbatim>\<open>arith_uint256\<close> and
  divides by an \<^verbatim>\<open>arith_uint256\<close> only: the \<^verbatim>\<open>int64_t\<close> multiplier converts to
  \<^verbatim>\<open>uint32_t\<close> (an integral conversion is preferred to the converting constructor)
  and the \<^verbatim>\<open>int64_t\<close> divisor to \<^verbatim>\<open>uint64_t\<close> and from there to 256 bits.  The product
  is kept in 256 bits.  The division throws on a zero divisor.
\<close>

definition retarget_preclamp ::
  "arith_uint256 \<Rightarrow> arith_uint256 \<Rightarrow> int \<Rightarrow> int64 \<Rightarrow> error + arith_uint256" where
  "retarget_preclamp bnOld bnPowLimit nActualTimespan nTargetTimespan =
     (let shift = fShift bnOld bnPowLimit;
          bnNew = (if shift then drop_bit 1 bnOld else bnOld);
          bnNew = bnNew * ucast (word_of_int nActualTimespan :: uint32)
      in if (ucast nTargetTimespan :: arith_uint256) = 0 then Inl uint_error
         else let bnNew = bnNew div ucast nTargetTimespan
              in Inr (if shift then push_bit 1 bnNew else bnNew))"

text \<open>Lines 95 to 131: the magnitude that line 137 encodes.\<close>

definition retarget_magnitude ::
  "CBlockIndex \<Rightarrow> int64 \<Rightarrow> Params \<Rightarrow> int64 \<Rightarrow> error + arith_uint256" where
  "retarget_magnitude pindexLast nFirstBlockTime params nTargetTimespan =
     (let nActualTimespan =
            clamp_timespan (GetBlockTime pindexLast - sint nFirstBlockTime)
              (sint nTargetTimespan);
          bnOld = fst (SetCompact (nBits pindexLast));
          bnPowLimit = UintToArith256 (powLimit params)
      in case retarget_preclamp bnOld bnPowLimit nActualTimespan nTargetTimespan of
           Inl e \<Rightarrow> Inl e
         | Inr bnNew \<Rightarrow> Inr (if bnNew > bnPowLimit then bnPowLimit else bnNew))"

definition CalculateNextWorkRequired ::
  "CBlockIndex \<Rightarrow> int64 \<Rightarrow> Params \<Rightarrow> int64 \<Rightarrow> error + uint32" where
  "CalculateNextWorkRequired pindexLast nFirstBlockTime params nTargetTimespan =
     (if fPowNoRetargeting params then Inr (nBits pindexLast)
      else case retarget_magnitude pindexLast nFirstBlockTime params nTargetTimespan of
             Inl e \<Rightarrow> Inl e
           | Inr bnNew \<Rightarrow> Inr (GetCompact bnNew))"

subsection \<open>GetNextWorkRequired\<close>

text \<open>The loop of lines 57 to 63; it returns the block at which it stops.\<close>

fun min_difficulty_walk :: "int \<Rightarrow> uint32 \<Rightarrow> CBlockIndex \<Rightarrow> CBlockIndex" where
  "min_difficulty_walk difficultyAdjustmentInterval nProofOfWorkLimit
       (CBlockIndex h t b None) = CBlockIndex h t b None"
| "min_difficulty_walk difficultyAdjustmentInterval nProofOfWorkLimit
       (CBlockIndex h t b (Some prev)) =
     (if sint h smod difficultyAdjustmentInterval \<noteq> 0 \<and> b = nProofOfWorkLimit
      then min_difficulty_walk difficultyAdjustmentInterval nProofOfWorkLimit prev
      else CBlockIndex h t b (Some prev))"

text \<open>The loop of lines 82 and 83, with its counter \<open>i\<close>.\<close>

function go_back :: "int \<Rightarrow> int \<Rightarrow> CBlockIndex option \<Rightarrow> CBlockIndex option" where
  "go_back i blockstogoback pindexFirst =
     (case pindexFirst of
        None \<Rightarrow> None
      | Some b \<Rightarrow> if i < blockstogoback then go_back (i + 1) blockstogoback (pprev b)
                  else Some b)"
  by pat_completeness auto
termination
  by (relation "measure (\<lambda>(i, n, p). nat (n - i))") auto

text \<open>
  Lines 30 to 36: the values of the locals \<^verbatim>\<open>difficultyAdjustmentInterval\<close> and
  \<^verbatim>\<open>nTargetTimespan\<close> after the test of the fork height.
\<close>

definition regime_difficultyAdjustmentInterval :: "CBlockIndex \<Rightarrow> Params \<Rightarrow> int" where
  "regime_difficultyAdjustmentInterval tip params =
     (if sint (nHeight tip) \<ge> sint (HardFork_Height params)
      then sint (DifficultyAdjustmentInterval_Fork params)
      else sint (DifficultyAdjustmentInterval params))"

definition regime_nTargetTimespan :: "CBlockIndex \<Rightarrow> Params \<Rightarrow> int64" where
  "regime_nTargetTimespan tip params =
     (if sint (nHeight tip) \<ge> sint (HardFork_Height params)
      then nPowTargetTimespan_Fork params
      else nPowTargetTimespan params)"

text \<open>
  Lines 75 to 77.  The conversion from \<^verbatim>\<open>int64_t\<close> to \<^verbatim>\<open>int\<close> keeps the low 32 bits.
\<close>

definition blockstogoback :: "CBlockIndex \<Rightarrow> int \<Rightarrow> int" where
  "blockstogoback tip difficultyAdjustmentInterval =
     signed_take_bit 31
       (if sint (nHeight tip) + 1 \<noteq> difficultyAdjustmentInterval
        then difficultyAdjustmentInterval
        else difficultyAdjustmentInterval - 1)"

text \<open>
  Lines 15 to 90.  A null \<^verbatim>\<open>pindexLast\<close> fails the assertion of line 22; \<^verbatim>\<open>%\<close> with a
  zero interval traps.
\<close>

definition GetNextWorkRequired ::
  "CBlockIndex option \<Rightarrow> CBlockHeader \<Rightarrow> Params \<Rightarrow> error + uint32" where
  "GetNextWorkRequired pindexLast pblock params =
     (case pindexLast of
        None \<Rightarrow> Inl AssertionFailure
      | Some tip \<Rightarrow>
         let nProofOfWorkLimit = GetCompact (UintToArith256 (powLimit params));
             difficultyAdjustmentInterval = regime_difficultyAdjustmentInterval tip params;
             nTargetTimespan = regime_nTargetTimespan tip params
         in if difficultyAdjustmentInterval = 0 then Inl IntegerDivideByZero
            else if (sint (nHeight tip) + 1) smod difficultyAdjustmentInterval \<noteq> 0
            then
              (if fPowAllowMinDifficultyBlocks params
               then
                 (if header_GetBlockTime pblock
                       > GetBlockTime tip + sint (nPowTargetSpacing params) * 2
                  then Inr nProofOfWorkLimit
                  else Inr (nBits (min_difficulty_walk difficultyAdjustmentInterval
                                     nProofOfWorkLimit tip)))
               else Inr (nBits tip))
            else
              (case go_back 0 (blockstogoback tip difficultyAdjustmentInterval) (Some tip) of
                 None \<Rightarrow> Inl AssertionFailure
               | Some pindexFirst \<Rightarrow>
                   CalculateNextWorkRequired tip
                     (word_of_int (GetBlockTime pindexFirst)) params nTargetTimespan))"

subsection \<open>CheckProofOfWork\<close>

text \<open>Lines 140 to 157; the argument \<^verbatim>\<open>nBits\<close> is written \<open>nbits\<close>.\<close>

definition CheckProofOfWork :: "uint256 \<Rightarrow> uint32 \<Rightarrow> Params \<Rightarrow> bool" where
  "CheckProofOfWork hash nbits params =
     (case SetCompact nbits of
        (bnTarget, fNegative, fOverflow) \<Rightarrow>
          if fNegative \<or> bnTarget = 0 \<or> fOverflow
             \<or> bnTarget > UintToArith256 (powLimit params)
          then False
          else if UintToArith256 hash > bnTarget then False
          else True)"

section \<open>Chains\<close>

text \<open>
  The blocks reached from a block through \<^verbatim>\<open>pprev\<close>: the block itself first, the
  genesis block last.
\<close>

fun ancestors :: "CBlockIndex \<Rightarrow> CBlockIndex list" where
  "ancestors (CBlockIndex h t b None) = [CBlockIndex h t b None]"
| "ancestors (CBlockIndex h t b (Some prev)) =
     CBlockIndex h t b (Some prev) # ancestors prev"

text \<open>The number of parent links from a block back to the genesis block.\<close>

definition links :: "CBlockIndex \<Rightarrow> nat" where
  "links pindex = length (ancestors pindex) - 1"

text \<open>
  A well-formed chain: the genesis block (no parent) has height 0, and the height
  of every other block is the number of parent links back to the genesis block.
\<close>

fun wellformed :: "CBlockIndex \<Rightarrow> bool" where
  "wellformed (CBlockIndex h t b None) = (sint h = 0)"
| "wellformed (CBlockIndex h t b (Some prev)) =
     (sint h = int (links prev) + 1 \<and> wellformed prev)"

text \<open>The condition of the loop of line 57 at a block.\<close>

definition walk_condition :: "int \<Rightarrow> uint32 \<Rightarrow> CBlockIndex \<Rightarrow> bool" where
  "walk_condition difficultyAdjustmentInterval nProofOfWorkLimit pindex =
     (pprev pindex \<noteq> None
      \<and> sint (nHeight pindex) smod difficultyAdjustmentInterval \<noteq> 0
      \<and> nBits pindex = nProofOfWorkLimit)"

section \<open>Range of the 256-bit arithmetic\<close>

text \<open>
  The value of \<^verbatim>\<open>bnNew\<close> at line 124, before the multiplication: the previous
  magnitude, halved when \<^verbatim>\<open>fShift\<close> is set.
\<close>

definition multiplicand :: "arith_uint256 \<Rightarrow> arith_uint256 \<Rightarrow> nat" where
  "multiplicand bnOld bnPowLimit =
     (if fShift bnOld bnPowLimit then unat bnOld div 2 else unat bnOld)"

text \<open>
  The 256-bit operations of lines 124 to 128 do not wrap for any clamped timespan:
  the product with four times the target timespan fits into 256 bits, and so does
  the left shift of four times the multiplicand.
\<close>

definition no_overflow :: "arith_uint256 \<Rightarrow> arith_uint256 \<Rightarrow> int64 \<Rightarrow> bool" where
  "no_overflow bnOld bnPowLimit nTargetTimespan =
     (multiplicand bnOld bnPowLimit * (4 * unat nTargetTimespan) < 2 ^ 256
      \<and> (if fShift bnOld bnPowLimit then 8 * multiplicand bnOld bnPowLimit < 2 ^ 256
         else True))"

section \<open>Magnitudes that are exact in the compact form\<close>

text \<open>
  With \<open>nSize\<close> the byte length of the magnitude, the mantissa holds its top three
  bytes, or only its top two when the top bit of the top byte is set (the mantissa
  then starts with a zero byte, which keeps the sign bit clear).  The magnitude is
  exact in the compact form when all its bytes below those are zero.
\<close>

definition expressible :: "arith_uint256 \<Rightarrow> bool" where
  "expressible a =
     (let nSize = (bits a + 7) div 8;
          width = (if bit a (8 * nSize - 1) then 2 else 3)
      in unat a mod 256 ^ (nSize - width) = 0)"

section \<open>Example data\<close>

text \<open>
  A small parameter set: the limit \<open>2 ^ 236 - 1\<close> (compact \<^verbatim>\<open>0x1e0fffff\<close>), a spacing of
  150 seconds, two blocks per adjustment interval before the fork and three from
  height 2 on, minimum-difficulty blocks allowed.
\<close>

definition example_params :: Params where
  "example_params =
     \<lparr>powLimit = 2 ^ 236 - 1,
      nPowTargetTimespan = 300,
      nPowTargetTimespan_Fork = 450,
      nPowTargetSpacing = 150,
      DifficultyAdjustmentInterval = 2,
      DifficultyAdjustmentInterval_Fork = 3,
      HardFork_Height = 2,
      fPowAllowMinDifficultyBlocks = True,
      fPowNoRetargeting = False\<rparr>"

text \<open>A chain of five blocks, 150 seconds apart.\<close>

definition block0 :: CBlockIndex where
  "block0 = CBlockIndex 0 1000 0x1e0fffff None"

definition block1 :: CBlockIndex where
  "block1 = CBlockIndex 1 1150 0x1e0fffff (Some block0)"

definition block2 :: CBlockIndex where
  "block2 = CBlockIndex 2 1300 0x1e0fffff (Some block1)"

definition block3 :: CBlockIndex where
  "block3 = CBlockIndex 3 1450 0x1e0aaaaa (Some block2)"

definition block4 :: CBlockIndex where
  "block4 = CBlockIndex 4 1600 0x1e0fffff (Some block3)"

section \<open>Properties\<close>

subsection \<open>Word facts\<close>

lemma word_lt_succ: "(t::'a::len word) \<noteq> - 1 \<Longrightarrow> t < t + 1"
  by (meson inc_less_eq_triv_imp not_le)

lemma unat_ucast_64_256: "unat (ucast (w::64 word) :: 256 word) = unat w"
proof -
  have "unat w < 2 ^ 64" using unsigned_less [of w] by simp
  also have "\<dots> < (2::nat) ^ 256" by simp
  finally show ?thesis by (simp add: unsigned_ucast_eq take_bit_nat_eq_self)
qed

lemma unat_ucast_32_256: "unat (ucast (w::32 word) :: 256 word) = unat w"
proof -
  have "unat w < 2 ^ 32" using unsigned_less [of w] by simp
  also have "\<dots> < (2::nat) ^ 256" by simp
  finally show ?thesis by (simp add: unsigned_ucast_eq take_bit_nat_eq_self)
qed

lemma ucast_64_256_eq_0: "(ucast (T::64 word) :: 256 word) = 0 \<longleftrightarrow> T = 0"
  by (metis unat_ucast_64_256 unat_eq_0)

lemma sint_nonneg_uint: "0 \<le> sint (T::64 word) \<Longrightarrow> uint T = sint T"
proof -
  assume h: "0 \<le> sint T"
  have "sint T < 2 ^ 63" using sint_lt [of T] by simp
  then have "sint T < 2 ^ 64" by simp
  with h show ?thesis by (simp add: uint_sint take_bit_int_eq_self)
qed

subsection \<open>CheckProofOfWork\<close>

text \<open>A decoded target is never the all-ones word, so adding one does not wrap.\<close>

lemma SetCompact_not_max: "fst (SetCompact nb) \<noteq> - 1"
proof (cases "unat (drop_bit 24 nb) \<le> 3")
  case True
  have "\<not> bit (ucast (drop_bit (8 * (3 - unat (drop_bit 24 nb))) (nb AND 0x007fffff))
                 :: 256 word) 200"
    by (simp add: bit_ucast_iff bit_drop_bit_eq bit_and_iff)
  moreover have "bit (- 1 :: 256 word) 200" by simp
  ultimately show ?thesis using True
    by (auto simp add: SetCompact_def Let_def)
next
  case False
  have "\<not> bit (push_bit (8 * (unat (drop_bit 24 nb) - 3)) (ucast (nb AND 0x007fffff))
                 :: 256 word) 0"
    using False by (simp add: bit_push_bit_iff)
  then show ?thesis using False by (auto simp add: SetCompact_def Let_def)
qed

lemma CheckProofOfWork_unfold:
  "SetCompact nb = (t, fNegative, fOverflow) \<Longrightarrow>
   CheckProofOfWork h nb params \<longleftrightarrow>
     \<not> fNegative \<and> \<not> fOverflow \<and> t \<noteq> 0 \<and> t \<le> powLimit params \<and> h \<le> t"
  by (auto simp add: CheckProofOfWork_def UintToArith256_def)

text \<open>
  C1.  \<open>CheckProofOfWork h nb params\<close> is true exactly when the target \<open>t\<close> decoded
  from \<open>nb\<close> has the negative flag clear, the overflow flag clear, is nonzero, does
  not exceed the difficulty limit, and \<open>h \<le> t\<close> as unsigned 256-bit numbers.  In
  particular the hash \<open>t + 1\<close> is always rejected, and the hash \<open>t\<close> is accepted
  whenever the target is in range.
\<close>

theorem CheckProofOfWork_boundary:
  "(CheckProofOfWork h nb params \<longleftrightarrow>
      (case SetCompact nb of
         (t, fNegative, fOverflow) \<Rightarrow>
           \<not> fNegative \<and> \<not> fOverflow \<and> t \<noteq> 0
           \<and> t \<le> UintToArith256 (powLimit params) \<and> UintToArith256 h \<le> t))
   \<and> \<not> CheckProofOfWork (fst (SetCompact nb) + 1) nb params
   \<and> (CheckProofOfWork (fst (SetCompact nb)) nb params \<longleftrightarrow>
      (case SetCompact nb of
         (t, fNegative, fOverflow) \<Rightarrow>
           \<not> fNegative \<and> \<not> fOverflow \<and> t \<noteq> 0
           \<and> t \<le> UintToArith256 (powLimit params)))"
proof -
  obtain t fNegative fOverflow where sc: "SetCompact nb = (t, fNegative, fOverflow)"
    by (cases "SetCompact nb") auto
  have "t \<noteq> - 1" using SetCompact_not_max [of nb] by (simp add: sc)
  then have lt: "\<not> t + 1 \<le> t" using word_lt_succ [of t] by (simp add: not_le)
  show ?thesis
    using lt by (simp add: CheckProofOfWork_unfold [OF sc] sc UintToArith256_def)
qed

theorem CheckProofOfWork_boundary_witness:
  "CheckProofOfWork 100 0x01640000 example_params
   \<and> \<not> CheckProofOfWork 101 0x01640000 example_params"
  using CheckProofOfWork_boundary [of 100 "0x01640000" example_params]
    CheckProofOfWork_boundary [of 101 "0x01640000" example_params]
  by (simp add: SetCompact_def Let_def example_params_def UintToArith256_def)

subsection \<open>CalculateNextWorkRequired\<close>

text \<open>
  C10.  With a strictly positive target timespan the divisor of the 256-bit division
  is nonzero (the other division, by the constant 4, cannot fail), so
  \<open>CalculateNextWorkRequired\<close> returns a compact target and never the division
  error.
\<close>

theorem CalculateNextWorkRequired_total:
  assumes "0 < sint nTargetTimespan"
  shows "(ucast nTargetTimespan :: arith_uint256) \<noteq> 0
         \<and> (\<exists>r. CalculateNextWorkRequired pindexLast nFirstBlockTime params nTargetTimespan
                 = Inr r)"
proof -
  from assms have "nTargetTimespan \<noteq> 0" by auto
  then have "(ucast nTargetTimespan :: 256 word) \<noteq> 0" by (simp add: ucast_64_256_eq_0)
  then show ?thesis
    by (simp add: CalculateNextWorkRequired_def retarget_magnitude_def
        retarget_preclamp_def Let_def)
qed

theorem CalculateNextWorkRequired_total_witness:
  "(0::int) < sint (300 :: int64)
   \<and> (\<exists>r. CalculateNextWorkRequired block1 1000 example_params 300 = Inr r)"
  using CalculateNextWorkRequired_total [of 300 block1 1000 example_params]
  by simp

subsection \<open>GetNextWorkRequired\<close>

declare go_back.simps [simp del]

lemma ancestors_nonempty: "ancestors b \<noteq> []"
  by (cases b rule: ancestors.cases) auto

lemma ancestors_hd: "ancestors b ! 0 = b"
  by (cases b rule: ancestors.cases) auto

lemma wellformed_height: "wellformed b \<Longrightarrow> sint (nHeight b) = int (links b)"
  by (cases b rule: ancestors.cases) (auto simp: links_def ancestors_nonempty Suc_leI)

lemma go_back_ancestors:
  "nat (n - i) < length (ancestors b) \<Longrightarrow>
   go_back i n (Some b) = Some (ancestors b ! nat (n - i))"
proof (induction b arbitrary: i rule: ancestors.induct)
  case (1 h t bts)
  then have "\<not> i < n" by simp
  then show ?case by (simp add: go_back.simps [of i n])
next
  case (2 h t bts prev)
  show ?case
  proof (cases "i < n")
    case True
    then have eq: "nat (n - i) = Suc (nat (n - (i + 1)))" by simp
    with "2.prems" have "nat (n - (i + 1)) < length (ancestors prev)" by simp
    from "2.IH" [OF this] True show ?thesis
      by (simp add: go_back.simps [of i n] eq)
  next
    case False
    then show ?thesis by (simp add: go_back.simps [of i n])
  qed
qed

lemma Calc_not_assert:
  "CalculateNextWorkRequired tip f params T \<noteq> Inl AssertionFailure"
  by (simp add: CalculateNextWorkRequired_def retarget_magnitude_def retarget_preclamp_def Let_def)

lemma boundary_blockstogoback:
  fixes h I :: int
  assumes h: "0 \<le> h" "h < 2 ^ 31" and I: "I \<noteq> 0" and b: "(h + 1) smod I = 0"
  shows "signed_take_bit 31 (if h + 1 \<noteq> I then I else I - 1) = (if h + 1 \<noteq> I then I else I - 1)"
    and "(if h + 1 \<noteq> I then I else I - 1) \<le> h"
proof -
  from b h have "(h + 1) mod \<bar>I\<bar> = 0"
    by (simp add: signed_modulo_int_def sgn_if split: if_splits)
  then have dvd: "\<bar>I\<bar> dvd h + 1" by (simp add: dvd_eq_mod_eq_0)
  then obtain k where k: "h + 1 = \<bar>I\<bar> * k" by (auto simp: dvd_def)
  have kpos: "0 < k" using k h I by (smt (verit) zero_less_mult_iff abs_ge_zero)
  have le: "\<bar>I\<bar> \<le> h + 1" using dvd h by (simp add: zdvd_imp_le)
  have two: "\<bar>I\<bar> \<noteq> h + 1 \<Longrightarrow> \<bar>I\<bar> \<le> h"
  proof -
    assume ne: "\<bar>I\<bar> \<noteq> h + 1"
    then have "k \<noteq> 1" using k by auto
    with kpos have "2 \<le> k" by simp
    then have "\<bar>I\<bar> * 2 \<le> \<bar>I\<bar> * k" by (simp add: mult_left_mono)
    then have "\<bar>I\<bar> * 2 \<le> h + 1" by (simp only: k)
    moreover have "1 \<le> \<bar>I\<bar>" using I by simp
    ultimately show ?thesis by linarith
  qed
  show "(if h + 1 \<noteq> I then I else I - 1) \<le> h" using two le by auto
  show "signed_take_bit 31 (if h + 1 \<noteq> I then I else I - 1) = (if h + 1 \<noteq> I then I else I - 1)"
    using two le h I by (auto simp: signed_take_bit_int_eq_self_iff)
qed

lemma CalculateNextWorkRequired_params_cong:
  "powLimit params' = powLimit params \<Longrightarrow> fPowNoRetargeting params' = fPowNoRetargeting params \<Longrightarrow>
   CalculateNextWorkRequired tip f params' T = CalculateNextWorkRequired tip f params T"
  by (simp add: CalculateNextWorkRequired_def retarget_magnitude_def)

text \<open>
  C2.  With the interval and the timespan taken from the post-fork values when the
  height of the last block is at least the fork height, and from the pre-fork
  values below it, the result of the call is the one computed from these two
  values alone: they decide the boundary test, they are the interval of the walk
  back over minimum-difficulty blocks, they give the number of blocks of the
  window, and the timespan is the one handed to the retarget calculation.  The
  result does not depend on the values of the other regime.
\<close>

theorem GetNextWorkRequired_regime:
  "(sint (HardFork_Height params) \<le> sint (nHeight tip) \<longrightarrow>
      regime_difficultyAdjustmentInterval tip params
        = sint (DifficultyAdjustmentInterval_Fork params)
      \<and> regime_nTargetTimespan tip params = nPowTargetTimespan_Fork params
      \<and> GetNextWorkRequired (Some tip) pblock
            (params\<lparr>DifficultyAdjustmentInterval := i, nPowTargetTimespan := t\<rparr>)
          = GetNextWorkRequired (Some tip) pblock params)
   \<and> (sint (nHeight tip) < sint (HardFork_Height params) \<longrightarrow>
      regime_difficultyAdjustmentInterval tip params
        = sint (DifficultyAdjustmentInterval params)
      \<and> regime_nTargetTimespan tip params = nPowTargetTimespan params
      \<and> GetNextWorkRequired (Some tip) pblock
            (params\<lparr>DifficultyAdjustmentInterval_Fork := i, nPowTargetTimespan_Fork := t\<rparr>)
          = GetNextWorkRequired (Some tip) pblock params)
   \<and> (let interval = (if sint (HardFork_Height params) \<le> sint (nHeight tip)
                        then sint (DifficultyAdjustmentInterval_Fork params)
                        else sint (DifficultyAdjustmentInterval params));
            timespan = (if sint (HardFork_Height params) \<le> sint (nHeight tip)
                        then nPowTargetTimespan_Fork params
                        else nPowTargetTimespan params);
            limit = GetCompact (UintToArith256 (powLimit params))
        in GetNextWorkRequired (Some tip) pblock params =
           (if interval = 0 then Inl IntegerDivideByZero
            else if (sint (nHeight tip) + 1) smod interval \<noteq> 0
            then (if fPowAllowMinDifficultyBlocks params
                  then (if header_GetBlockTime pblock
                             > GetBlockTime tip + sint (nPowTargetSpacing params) * 2
                        then Inr limit
                        else Inr (nBits (min_difficulty_walk interval limit tip)))
                  else Inr (nBits tip))
            else (case go_back 0
                         (signed_take_bit 31
                            (if sint (nHeight tip) + 1 \<noteq> interval then interval
                             else interval - 1))
                         (Some tip) of
                    None \<Rightarrow> Inl AssertionFailure
                  | Some pindexFirst \<Rightarrow>
                      CalculateNextWorkRequired tip
                        (word_of_int (GetBlockTime pindexFirst)) params timespan)))"
proof -
  have used: "let interval = (if sint (HardFork_Height params) \<le> sint (nHeight tip)
                        then sint (DifficultyAdjustmentInterval_Fork params)
                        else sint (DifficultyAdjustmentInterval params));
            timespan = (if sint (HardFork_Height params) \<le> sint (nHeight tip)
                        then nPowTargetTimespan_Fork params
                        else nPowTargetTimespan params);
            limit = GetCompact (UintToArith256 (powLimit params))
        in GetNextWorkRequired (Some tip) pblock params =
           (if interval = 0 then Inl IntegerDivideByZero
            else if (sint (nHeight tip) + 1) smod interval \<noteq> 0
            then (if fPowAllowMinDifficultyBlocks params
                  then (if header_GetBlockTime pblock
                             > GetBlockTime tip + sint (nPowTargetSpacing params) * 2
                        then Inr limit
                        else Inr (nBits (min_difficulty_walk interval limit tip)))
                  else Inr (nBits tip))
            else (case go_back 0
                         (signed_take_bit 31
                            (if sint (nHeight tip) + 1 \<noteq> interval then interval
                             else interval - 1))
                         (Some tip) of
                    None \<Rightarrow> Inl AssertionFailure
                  | Some pindexFirst \<Rightarrow>
                      CalculateNextWorkRequired tip
                        (word_of_int (GetBlockTime pindexFirst)) params timespan))"
    by (simp add: GetNextWorkRequired_def Let_def regime_difficultyAdjustmentInterval_def
        regime_nTargetTimespan_def blockstogoback_def)
  have indep: "(sint (HardFork_Height params) \<le> sint (nHeight tip) \<longrightarrow>
      regime_difficultyAdjustmentInterval tip params
        = sint (DifficultyAdjustmentInterval_Fork params)
      \<and> regime_nTargetTimespan tip params = nPowTargetTimespan_Fork params
      \<and> GetNextWorkRequired (Some tip) pblock
            (params\<lparr>DifficultyAdjustmentInterval := i, nPowTargetTimespan := t\<rparr>)
          = GetNextWorkRequired (Some tip) pblock params)
   \<and> (sint (nHeight tip) < sint (HardFork_Height params) \<longrightarrow>
      regime_difficultyAdjustmentInterval tip params
        = sint (DifficultyAdjustmentInterval params)
      \<and> regime_nTargetTimespan tip params = nPowTargetTimespan params
      \<and> GetNextWorkRequired (Some tip) pblock
            (params\<lparr>DifficultyAdjustmentInterval_Fork := i, nPowTargetTimespan_Fork := t\<rparr>)
          = GetNextWorkRequired (Some tip) pblock params)"
  proof (cases "sint (HardFork_Height params) \<le> sint (nHeight tip)")
    case True
    let ?p = "params\<lparr>DifficultyAdjustmentInterval := i, nPowTargetTimespan := t\<rparr>"
    have 1: "regime_difficultyAdjustmentInterval tip ?p
             = regime_difficultyAdjustmentInterval tip params"
      and 2: "regime_nTargetTimespan tip ?p = regime_nTargetTimespan tip params"
      using True
      by (simp_all add: regime_difficultyAdjustmentInterval_def regime_nTargetTimespan_def)
    have 3: "CalculateNextWorkRequired tip f ?p T = CalculateNextWorkRequired tip f params T"
      for f T
      by (rule CalculateNextWorkRequired_params_cong) simp_all
    show ?thesis using True
      by (simp add: GetNextWorkRequired_def Let_def 1 2 3 cong: if_cong option.case_cong)
        (simp add: regime_difficultyAdjustmentInterval_def regime_nTargetTimespan_def)
  next
    case False
    let ?p = "params\<lparr>DifficultyAdjustmentInterval_Fork := i, nPowTargetTimespan_Fork := t\<rparr>"
    have 1: "regime_difficultyAdjustmentInterval tip ?p
             = regime_difficultyAdjustmentInterval tip params"
      and 2: "regime_nTargetTimespan tip ?p = regime_nTargetTimespan tip params"
      using False
      by (simp_all add: regime_difficultyAdjustmentInterval_def regime_nTargetTimespan_def)
    have 3: "CalculateNextWorkRequired tip f ?p T = CalculateNextWorkRequired tip f params T"
      for f T
      by (rule CalculateNextWorkRequired_params_cong) simp_all
    show ?thesis using False
      by (simp add: GetNextWorkRequired_def Let_def 1 2 3 cong: if_cong option.case_cong)
        (simp add: regime_difficultyAdjustmentInterval_def regime_nTargetTimespan_def)
  qed
  from indep used show ?thesis by blast
qed

text \<open>
  C3 (amended).  Off a retarget boundary, that is when \<open>(height + 1) mod interval\<close> is
  nonzero for the interval of the active regime, with minimum-difficulty blocks
  allowed and a candidate time strictly greater than the time of the last block
  plus twice the target spacing, the result is the compact form of the limit.
\<close>

theorem min_difficulty_gap_rule:
  assumes "fPowAllowMinDifficultyBlocks params"
    and "regime_difficultyAdjustmentInterval tip params \<noteq> 0"
    and "(sint (nHeight tip) + 1) smod regime_difficultyAdjustmentInterval tip params \<noteq> 0"
    and "header_GetBlockTime pblock > GetBlockTime tip + 2 * sint (nPowTargetSpacing params)"
  shows "GetNextWorkRequired (Some tip) pblock params
         = Inr (GetCompact (UintToArith256 (powLimit params)))"
  using assms by (simp add: GetNextWorkRequired_def Let_def mult.commute)

text \<open>
  C8.  On a well-formed chain, at a retarget boundary, \<^verbatim>\<open>blockstogoback\<close> is the interval
  (or the interval minus one when \<open>height + 1\<close> is the interval), it does not exceed
  the number of parent links of the last block, the walk of lines 82 and 83 ends at
  that ancestor, and the assertion of line 85 does not fail.
\<close>

theorem retarget_walk_within_chain:
  assumes wf: "wellformed tip"
    and nz: "regime_difficultyAdjustmentInterval tip params \<noteq> 0"
    and bd: "(sint (nHeight tip) + 1) smod regime_difficultyAdjustmentInterval tip params = 0"
  shows "blockstogoback tip (regime_difficultyAdjustmentInterval tip params)
           = (if sint (nHeight tip) + 1 \<noteq> regime_difficultyAdjustmentInterval tip params
              then regime_difficultyAdjustmentInterval tip params
              else regime_difficultyAdjustmentInterval tip params - 1)
         \<and> blockstogoback tip (regime_difficultyAdjustmentInterval tip params) \<le> int (links tip)
         \<and> go_back 0 (blockstogoback tip (regime_difficultyAdjustmentInterval tip params)) (Some tip)
             = Some (ancestors tip
                      ! nat (blockstogoback tip (regime_difficultyAdjustmentInterval tip params)))
         \<and> GetNextWorkRequired (Some tip) pblock params \<noteq> Inl AssertionFailure"
proof -
  let ?I = "regime_difficultyAdjustmentInterval tip params"
  let ?h = "sint (nHeight tip)"
  have h: "?h = int (links tip)" using wf by (rule wellformed_height)
  then have h0: "0 \<le> ?h" by simp
  have h1: "?h < 2 ^ 31" using sint_lt [of "nHeight tip"] by simp
  note bb = boundary_blockstogoback [OF h0 h1 nz bd]
  have eq: "blockstogoback tip ?I = (if ?h + 1 \<noteq> ?I then ?I else ?I - 1)"
    using bb(1) by (simp add: blockstogoback_def)
  have le: "blockstogoback tip ?I \<le> int (links tip)"
    using bb(2) eq h by simp
  then have "nat (blockstogoback tip ?I - 0) < length (ancestors tip)"
    using ancestors_nonempty [of tip] by (simp add: links_def) (cases "ancestors tip"; simp)
  from go_back_ancestors [OF this]
  have gb: "go_back 0 (blockstogoback tip ?I) (Some tip) = Some (ancestors tip ! nat (blockstogoback tip ?I))"
    by simp
  have "GetNextWorkRequired (Some tip) pblock params \<noteq> Inl AssertionFailure"
    using nz bd by (simp add: GetNextWorkRequired_def Let_def gb Calc_not_assert)
  with eq le gb show ?thesis by blast
qed

lemma min_difficulty_walk_stops:
  "k < length (ancestors b) \<Longrightarrow>
   \<forall>j<k. walk_condition I L (ancestors b ! j) \<Longrightarrow>
   \<not> walk_condition I L (ancestors b ! k) \<Longrightarrow>
   min_difficulty_walk I L b = ancestors b ! k"
proof (induction b arbitrary: k rule: ancestors.induct)
  case (1 h t bts)
  then show ?case by simp
next
  case (2 h t bts prev)
  let ?b = "CBlockIndex h t bts (Some prev)"
  show ?case
  proof (cases "walk_condition I L ?b")
    case True
    with "2.prems"(3) have "k \<noteq> 0" by (cases k) auto
    then obtain k' where k: "k = Suc k'" by (cases k) auto
    have a: "k' < length (ancestors prev)" using "2.prems"(1) k by simp
    have b: "\<forall>j<k'. walk_condition I L (ancestors prev ! j)"
    proof (intro allI impI)
      fix j assume "j < k'"
      then have "Suc j < k" using k by simp
      with "2.prems"(2) have "walk_condition I L (ancestors ?b ! Suc j)" by blast
      then show "walk_condition I L (ancestors prev ! j)" by simp
    qed
    have c: "\<not> walk_condition I L (ancestors prev ! k')" using "2.prems"(3) k by simp
    from "2.IH" [OF a b c] True show ?thesis
      by (simp add: k walk_condition_def)
  next
    case False
    have "k = 0"
    proof (rule ccontr)
      assume "k \<noteq> 0"
      then have "0 < k" by simp
      with "2.prems"(2) have "walk_condition I L (ancestors ?b ! 0)" by blast
      with False show False by simp
    qed
    with False show ?thesis by (auto simp: walk_condition_def)
  qed
qed

lemma genesis_fails_walk_condition:
  "\<not> walk_condition I L (ancestors b ! (length (ancestors b) - 1))"
  by (induction b rule: ancestors.induct) (auto simp: walk_condition_def ancestors_nonempty nth_Cons split: nat.splits)

lemma walk_stop_exists:
  "\<exists>k<length (ancestors b).
     (\<forall>j<k. walk_condition I L (ancestors b ! j)) \<and> \<not> walk_condition I L (ancestors b ! k)"
proof -
  let ?P = "\<lambda>n. n < length (ancestors b) \<and> \<not> walk_condition I L (ancestors b ! n)"
  have "?P (length (ancestors b) - 1)"
    using genesis_fails_walk_condition [of I L b] ancestors_nonempty [of b] by simp
  then have "\<exists>n. ?P n" ..
  then obtain n where n: "?P n" "\<forall>m<n. \<not> ?P m"
    using exists_least_iff [of ?P] by blast
  then have "\<forall>j<n. walk_condition I L (ancestors b ! j)"
    by (metis less_trans)
  with n(1) show ?thesis by blast
qed

text \<open>
  C4 (amended).  Off a retarget boundary, with minimum-difficulty blocks allowed and
  no spacing gap, the walk of line 57 passes the blocks that satisfy its condition
  (a parent exists, the height is not a multiple of the interval, the bits are the
  compact limit) and the result is the bits of the block at which it stops: the
  first block, going back from the last block, that fails the condition.  Such a
  block exists on every chain.
\<close>

theorem min_difficulty_walk_result:
  assumes "fPowAllowMinDifficultyBlocks params"
    and "regime_difficultyAdjustmentInterval tip params \<noteq> 0"
    and "(sint (nHeight tip) + 1) smod regime_difficultyAdjustmentInterval tip params \<noteq> 0"
    and "header_GetBlockTime pblock \<le> GetBlockTime tip + 2 * sint (nPowTargetSpacing params)"
  shows "(\<exists>k<length (ancestors tip).
            (\<forall>j<k. walk_condition (regime_difficultyAdjustmentInterval tip params)
                      (GetCompact (UintToArith256 (powLimit params))) (ancestors tip ! j))
            \<and> \<not> walk_condition (regime_difficultyAdjustmentInterval tip params)
                      (GetCompact (UintToArith256 (powLimit params))) (ancestors tip ! k))
       \<and> (\<forall>k<length (ancestors tip).
            (\<forall>j<k. walk_condition (regime_difficultyAdjustmentInterval tip params)
                      (GetCompact (UintToArith256 (powLimit params))) (ancestors tip ! j))
            \<and> \<not> walk_condition (regime_difficultyAdjustmentInterval tip params)
                      (GetCompact (UintToArith256 (powLimit params))) (ancestors tip ! k)
            \<longrightarrow> GetNextWorkRequired (Some tip) pblock params = Inr (nBits (ancestors tip ! k)))"
proof -
  let ?I = "regime_difficultyAdjustmentInterval tip params"
  let ?L = "GetCompact (UintToArith256 (powLimit params))"
  have r: "GetNextWorkRequired (Some tip) pblock params = Inr (nBits (min_difficulty_walk ?I ?L tip))"
    using assms by (simp add: GetNextWorkRequired_def Let_def mult.commute)
  show ?thesis
    using walk_stop_exists [of tip ?I ?L] min_difficulty_walk_stops [of _ tip ?I ?L]
    by (simp add: r)
qed

lemma GetCompact_example_limit:
  "GetCompact (UintToArith256 (powLimit example_params)) = 0x1e0fffff"
  by (simp add: example_params_def UintToArith256_def GetCompact_def Let_def bits_def
      compute_floorlog)

lemma SetCompact_example_limit: "SetCompact 0x1e0fffff = (0xfffff * 2 ^ 216, False, False)"
  by (simp add: SetCompact_def Let_def)

lemma example_retarget_block1:
  "GetNextWorkRequired (Some block1) pblock example_params = Inr 0x1e07ffff"
proof -
  have I: "regime_difficultyAdjustmentInterval block1 example_params = 2"
    and T: "regime_nTargetTimespan block1 example_params = 300"
    and h: "sint (nHeight block1) = 1"
    by (simp_all add: regime_difficultyAdjustmentInterval_def regime_nTargetTimespan_def
        example_params_def block1_def)
  have n: "blockstogoback block1 2 = 1"
    by (simp add: blockstogoback_def h)
  have gb: "go_back 0 1 (Some block1) = Some block0"
    by (simp add: go_back.simps [of _ 1] block1_def)
  have t: "word_of_int (GetBlockTime block0) = (1000 :: int64)"
    by (simp add: GetBlockTime_def block0_def)
  have c: "CalculateNextWorkRequired block1 1000 example_params 300 = Inr 0x1e07ffff"
    by (simp add: CalculateNextWorkRequired_def retarget_magnitude_def retarget_preclamp_def
        Let_def example_params_def block1_def clamp_timespan_def GetBlockTime_def
        UintToArith256_def SetCompact_example_limit fShift_def bits_def compute_floorlog
        GetCompact_def signed_divide_int_def)
  show ?thesis
    by (simp add: GetNextWorkRequired_def Let_def I T h n gb t c signed_modulo_int_def)
qed

lemma example_walk_block4:
  "GetNextWorkRequired (Some block4) (CBlockHeader 1750) example_params = Inr 0x1e0aaaaa"
proof -
  have I: "regime_difficultyAdjustmentInterval block4 example_params = 3"
    and h: "sint (nHeight block4) = 4"
    and a: "fPowAllowMinDifficultyBlocks example_params"
    and s: "sint (nPowTargetSpacing example_params) = 150"
    and g: "GetBlockTime block4 = 1600"
    and L: "GetCompact (UintToArith256 (powLimit example_params)) = 0x1e0fffff"
    by (simp_all add: GetCompact_example_limit)
      (simp_all add: regime_difficultyAdjustmentInterval_def GetBlockTime_def
        example_params_def block4_def)
  have w: "min_difficulty_walk 3 0x1e0fffff block4 = block3"
    by (simp add: block4_def block3_def signed_modulo_int_def)
  have b: "nBits block3 = 0x1e0aaaaa" by (simp add: block3_def)
  show ?thesis
    by (simp add: GetNextWorkRequired_def Let_def I h a s g L w b signed_modulo_int_def
        header_GetBlockTime_def)
qed

lemma example_go_back_block1: "go_back 0 1 (Some block1) = Some block0"
  by (simp add: go_back.simps [of _ 1] block1_def)

lemma example_go_back_block2: "go_back 0 2 (Some block2) = Some block0"
  by (simp add: go_back.simps [of _ 2] block2_def block1_def)

lemma example_calc_block1:
  "CalculateNextWorkRequired block1 1000 example_params 300 = Inr 0x1e07ffff"
  by (simp add: CalculateNextWorkRequired_def retarget_magnitude_def retarget_preclamp_def
      Let_def example_params_def block1_def clamp_timespan_def GetBlockTime_def
      UintToArith256_def SetCompact_example_limit fShift_def bits_def compute_floorlog
      GetCompact_def signed_divide_int_def)

lemma example_calc_block2:
  "CalculateNextWorkRequired block2 1000 example_params 450 = Inr 0x1e0aaaaa"
  by (simp add: CalculateNextWorkRequired_def retarget_magnitude_def retarget_preclamp_def
      Let_def example_params_def block2_def clamp_timespan_def GetBlockTime_def
      UintToArith256_def SetCompact_example_limit fShift_def bits_def compute_floorlog
      GetCompact_def signed_divide_int_def)

text \<open>
  The last block at height 2 is on a boundary of the post-fork interval 3 only, and
  the last block at height 1 on a boundary of the pre-fork interval 2: with the fork
  at height 2 the first is retargeted over 450 seconds and the second over 300
  seconds; with the fork at height 3 the first is not retargeted at all.
\<close>

theorem GetNextWorkRequired_regime_witness:
  "sint (HardFork_Height example_params) \<le> sint (nHeight block2)
   \<and> regime_difficultyAdjustmentInterval block2 example_params = 3
   \<and> GetNextWorkRequired (Some block2) (CBlockHeader 1450)
        (example_params\<lparr>DifficultyAdjustmentInterval := 7, nPowTargetTimespan := 999\<rparr>)
      = GetNextWorkRequired (Some block2) (CBlockHeader 1450) example_params
   \<and> sint (nHeight block1) < sint (HardFork_Height example_params)
   \<and> regime_difficultyAdjustmentInterval block1 example_params = 2
   \<and> GetNextWorkRequired (Some block1) (CBlockHeader 1300)
        (example_params\<lparr>DifficultyAdjustmentInterval_Fork := 7,
                         nPowTargetTimespan_Fork := 999\<rparr>)
      = GetNextWorkRequired (Some block1) (CBlockHeader 1300) example_params
   \<and> GetNextWorkRequired (Some block2) (CBlockHeader 1450) example_params = Inr 0x1e0aaaaa
   \<and> GetNextWorkRequired (Some block1) (CBlockHeader 1300) example_params = Inr 0x1e07ffff
   \<and> sint (nHeight block2) < sint (HardFork_Height (example_params\<lparr>HardFork_Height := 3\<rparr>))
   \<and> GetNextWorkRequired (Some block2) (CBlockHeader 1450)
        (example_params\<lparr>HardFork_Height := 3\<rparr>) = Inr 0x1e0fffff"
proof -
  note t2 = GetNextWorkRequired_regime [where params = example_params and tip = block2
      and pblock = "CBlockHeader 1450" and i = 7 and t = 999]
  note t1 = GetNextWorkRequired_regime [where params = example_params and tip = block1
      and pblock = "CBlockHeader 1300" and i = 7 and t = 999]
  note t3 = GetNextWorkRequired_regime [where params = "example_params\<lparr>HardFork_Height := 3\<rparr>"
      and tip = block2 and pblock = "CBlockHeader 1450" and i = 7 and t = 999]
  have old: "sint (HardFork_Height example_params) \<le> sint (nHeight block2)
   \<and> regime_difficultyAdjustmentInterval block2 example_params = 3
   \<and> GetNextWorkRequired (Some block2) (CBlockHeader 1450)
        (example_params\<lparr>DifficultyAdjustmentInterval := 7, nPowTargetTimespan := 999\<rparr>)
      = GetNextWorkRequired (Some block2) (CBlockHeader 1450) example_params
   \<and> sint (nHeight block1) < sint (HardFork_Height example_params)
   \<and> regime_difficultyAdjustmentInterval block1 example_params = 2
   \<and> GetNextWorkRequired (Some block1) (CBlockHeader 1300)
        (example_params\<lparr>DifficultyAdjustmentInterval_Fork := 7,
                         nPowTargetTimespan_Fork := 999\<rparr>)
      = GetNextWorkRequired (Some block1) (CBlockHeader 1300) example_params"
    using t2 [THEN conjunct1] t2 [THEN conjunct2, THEN conjunct1]
      t1 [THEN conjunct1] t1 [THEN conjunct2, THEN conjunct1]
    by (simp add: example_params_def block2_def block1_def)
  have f: "sint (HardFork_Height example_params) = 2"
    "sint (HardFork_Height (example_params\<lparr>HardFork_Height := 3\<rparr>)) = 3"
    "sint (DifficultyAdjustmentInterval_Fork example_params) = 3"
    "sint (DifficultyAdjustmentInterval example_params) = 2"
    "nPowTargetTimespan_Fork example_params = 450"
    "nPowTargetTimespan example_params = 300"
    "sint (nPowTargetSpacing example_params) = 150"
    "fPowAllowMinDifficultyBlocks example_params"
    by (simp_all add: example_params_def)
  have h: "sint (nHeight block2) = 2" "sint (nHeight block1) = 1"
    "GetBlockTime block2 = 1300" "nBits block2 = 0x1e0fffff"
    by (simp_all add: block2_def block1_def GetBlockTime_def)
  have t: "word_of_int (GetBlockTime block0) = (1000 :: int64)"
    by (simp add: GetBlockTime_def block0_def)
  have w: "min_difficulty_walk 2 0x1e0fffff block2 = block2"
    by (simp add: block2_def signed_modulo_int_def)
  from t2 [THEN conjunct2, THEN conjunct2, unfolded Let_def]
  have r2: "GetNextWorkRequired (Some block2) (CBlockHeader 1450) example_params
            = Inr 0x1e0aaaaa"
    by (simp add: f h t signed_modulo_int_def example_go_back_block2 example_calc_block2)
  from t1 [THEN conjunct2, THEN conjunct2, unfolded Let_def]
  have r1: "GetNextWorkRequired (Some block1) (CBlockHeader 1300) example_params
            = Inr 0x1e07ffff"
    by (simp add: f h t signed_modulo_int_def example_go_back_block1 example_calc_block1)
  from t3 [THEN conjunct2, THEN conjunct2, unfolded Let_def]
  have r3: "GetNextWorkRequired (Some block2) (CBlockHeader 1450)
              (example_params\<lparr>HardFork_Height := 3\<rparr>) = Inr 0x1e0fffff"
    by (simp add: f h w signed_modulo_int_def GetCompact_example_limit header_GetBlockTime_def)
  from old r2 r1 r3 f(2) h(1) show ?thesis by simp
qed

text \<open>
  On a retarget boundary the gap rule is not consulted: for \<open>block1\<close> (height 1,
  interval 2) and a candidate 850 seconds later the result is the retargeted
  \<^verbatim>\<open>0x1e07ffff\<close>, not the limit \<^verbatim>\<open>0x1e0fffff\<close>.
\<close>

theorem min_difficulty_gap_rule_counterexample:
  "fPowAllowMinDifficultyBlocks example_params
   \<and> header_GetBlockTime (CBlockHeader 2000)
       > GetBlockTime block1 + 2 * sint (nPowTargetSpacing example_params)
   \<and> GetNextWorkRequired (Some block1) (CBlockHeader 2000) example_params = Inr 0x1e07ffff
   \<and> GetCompact (UintToArith256 (powLimit example_params)) = 0x1e0fffff
   \<and> GetNextWorkRequired (Some block1) (CBlockHeader 2000) example_params
       \<noteq> Inr (GetCompact (UintToArith256 (powLimit example_params)))"
  by (simp add: example_retarget_block1 GetCompact_example_limit)
    (simp add: example_params_def header_GetBlockTime_def GetBlockTime_def block1_def)

theorem min_difficulty_gap_rule_witness:
  "GetNextWorkRequired (Some block0) (CBlockHeader 2000) example_params = Inr 0x1e0fffff"
  using min_difficulty_gap_rule [of example_params block0 "CBlockHeader 2000"]
  by (simp add: GetCompact_example_limit)
    (simp add: regime_difficultyAdjustmentInterval_def example_params_def block0_def
      header_GetBlockTime_def GetBlockTime_def signed_modulo_int_def)

text \<open>
  For \<open>block4\<close> (interval 3) the only block that satisfies the loop condition is
  \<open>block4\<close> itself, with the bits of the limit; the result is the bits of its parent
  \<open>block3\<close>, where the walk stops.
\<close>

theorem min_difficulty_walk_result_counterexample:
  "fPowAllowMinDifficultyBlocks example_params
   \<and> regime_difficultyAdjustmentInterval block4 example_params = 3
   \<and> (sint (nHeight block4) + 1) smod 3 \<noteq> 0
   \<and> header_GetBlockTime (CBlockHeader 1750)
       \<le> GetBlockTime block4 + 2 * sint (nPowTargetSpacing example_params)
   \<and> GetCompact (UintToArith256 (powLimit example_params)) = 0x1e0fffff
   \<and> walk_condition 3 0x1e0fffff block4
   \<and> pprev block4 = Some block3
   \<and> \<not> walk_condition 3 0x1e0fffff block3
   \<and> nBits block4 = 0x1e0fffff
   \<and> GetNextWorkRequired (Some block4) (CBlockHeader 1750) example_params = Inr 0x1e0aaaaa
   \<and> GetNextWorkRequired (Some block4) (CBlockHeader 1750) example_params
       \<noteq> Inr (nBits block4)"
  by (simp add: example_walk_block4 GetCompact_example_limit)
    (simp add: example_params_def header_GetBlockTime_def GetBlockTime_def block4_def
      block3_def walk_condition_def
      regime_difficultyAdjustmentInterval_def signed_modulo_int_def)

theorem min_difficulty_walk_result_witness:
  "GetNextWorkRequired (Some block4) (CBlockHeader 1750) example_params
   = Inr (nBits block3)"
proof -
  have I: "regime_difficultyAdjustmentInterval block4 example_params = 3"
    and L: "GetCompact (UintToArith256 (powLimit example_params)) = 0x1e0fffff"
    by (simp_all add: GetCompact_example_limit)
      (simp_all add: regime_difficultyAdjustmentInterval_def example_params_def block4_def)
  have hyps: "fPowAllowMinDifficultyBlocks example_params"
    "regime_difficultyAdjustmentInterval block4 example_params \<noteq> 0"
    "(sint (nHeight block4) + 1) smod regime_difficultyAdjustmentInterval block4 example_params \<noteq> 0"
    "header_GetBlockTime (CBlockHeader 1750)
       \<le> GetBlockTime block4 + 2 * sint (nPowTargetSpacing example_params)"
    by (simp_all add: I signed_modulo_int_def)
      (simp_all add: example_params_def block4_def header_GetBlockTime_def GetBlockTime_def)
  have a: "ancestors block4 ! 0 = block4" "ancestors block4 ! 1 = block3"
    "1 < length (ancestors block4)"
    by (simp_all add: block4_def block3_def)
  have c: "walk_condition 3 0x1e0fffff block4" "\<not> walk_condition 3 0x1e0fffff block3"
    by (simp_all add: walk_condition_def block4_def block3_def signed_modulo_int_def)
  from min_difficulty_walk_result [OF hyps]
  have "\<forall>k<length (ancestors block4).
          (\<forall>j<k. walk_condition 3 0x1e0fffff (ancestors block4 ! j))
          \<and> \<not> walk_condition 3 0x1e0fffff (ancestors block4 ! k)
          \<longrightarrow> GetNextWorkRequired (Some block4) (CBlockHeader 1750) example_params
                = Inr (nBits (ancestors block4 ! k))"
    by (simp add: I L)
  from this [rule_format, of 1] a c show ?thesis by simp
qed

theorem retarget_walk_within_chain_witness:
  "wellformed block2
   \<and> regime_difficultyAdjustmentInterval block2 example_params = 3
   \<and> (sint (nHeight block2) + 1) smod 3 = 0
   \<and> blockstogoback block2 3 = 2
   \<and> go_back 0 2 (Some block2) = Some block0
   \<and> GetNextWorkRequired (Some block2) (CBlockHeader 1450) example_params
       \<noteq> Inl AssertionFailure"
proof -
  have I: "regime_difficultyAdjustmentInterval block2 example_params = 3"
    by (simp add: regime_difficultyAdjustmentInterval_def example_params_def block2_def)
  have wf: "wellformed block2"
    by (simp add: block2_def block1_def block0_def links_def)
  have h: "sint (nHeight block2) = 2" by (simp add: block2_def)
  have a: "ancestors block2 ! 2 = block0"
    by (simp add: block2_def block1_def ancestors_hd)
  have nz: "regime_difficultyAdjustmentInterval block2 example_params \<noteq> 0"
    by (simp add: I)
  have bd: "(sint (nHeight block2) + 1)
              smod regime_difficultyAdjustmentInterval block2 example_params = 0"
    by (simp add: I h signed_modulo_int_def)
  note r = retarget_walk_within_chain [OF wf nz bd, of "CBlockHeader 1450", unfolded I]
  from r have b: "blockstogoback block2 3 = 2"
    by (simp add: h)
  from r have "go_back 0 (blockstogoback block2 3) (Some block2)
            = Some (ancestors block2 ! nat (blockstogoback block2 3))"
    by blast
  then have g: "go_back 0 2 (Some block2) = Some block0"
    by (simp add: b a)
  from r have n: "GetNextWorkRequired (Some block2) (CBlockHeader 1450) example_params
            \<noteq> Inl AssertionFailure"
    by blast
  from b g n show ?thesis by (simp add: I h wf signed_modulo_int_def)
qed

subsection \<open>The retargeting arithmetic\<close>

lemma clamp_timespan_bounds:
  assumes "0 < T"
  shows "T div 4 \<le> clamp_timespan a T" "clamp_timespan a T \<le> T * 4" "0 \<le> clamp_timespan a T"
  using assms by (auto simp: clamp_timespan_def Let_def signed_divide_int_def sgn_if)

lemma clamp_timespan_mono:
  assumes "0 < T" "a1 \<le> a2"
  shows "clamp_timespan a1 T \<le> clamp_timespan a2 T"
  using assms by (auto simp: clamp_timespan_def Let_def signed_divide_int_def sgn_if)

lemma sint_pos_unat: "0 < sint (T::64 word) \<Longrightarrow> int (unat T) = sint T"
  using sint_nonneg_uint [of T] uint_nat [of T] by linarith

lemma unat_uint32_of_int_le: "0 \<le> a \<Longrightarrow> unat (word_of_int a :: 32 word) \<le> nat a"
proof -
  assume a: "0 \<le> a"
  have "uint (word_of_int a :: 32 word) = a mod 2 ^ 32" by (simp add: uint_word_of_int)
  also have "\<dots> \<le> a" using a by (rule zmod_le_nonneg_dividend)
  finally have "uint (word_of_int a :: 32 word) \<le> a" .
  then have "nat (uint (word_of_int a :: 32 word)) \<le> nat a" by (rule nat_mono)
  then show ?thesis by (simp only: unat_eq_nat_uint)
qed

lemma unat_uint32_of_int_eq:
  "0 \<le> a \<Longrightarrow> a < 2 ^ 32 \<Longrightarrow> unat (word_of_int a :: 32 word) = nat a"
  by (simp add: unat_eq_nat_uint uint_word_of_int)

lemma retarget_preclamp_unat:
  assumes "retarget_preclamp old pl a T = Inr r"
  shows "unat r =
     (let q = ((multiplicand old pl * unat (word_of_int a :: 32 word)) mod 2 ^ 256) div unat T
      in if fShift old pl then (2 * q) mod 2 ^ 256 else q)"
proof -
  have nz: "(ucast T :: 256 word) \<noteq> 0"
    using assms by (auto simp: retarget_preclamp_def Let_def split: if_splits)
  show ?thesis
  proof (cases "fShift old pl")
    case True
    then have r: "r = push_bit 1 (drop_bit 1 old * ucast (word_of_int a :: 32 word) div ucast T)"
      using assms nz by (simp add: retarget_preclamp_def Let_def)
    show ?thesis using True
      by (simp add: r Let_def multiplicand_def unsigned_push_bit_eq take_bit_eq_mod unat_div
          unat_word_ariths unat_drop_bit_eq unat_ucast_64_256 unat_ucast_32_256 drop_bit_eq_div
          mult.commute)
  next
    case False
    then have r: "r = old * ucast (word_of_int a :: 32 word) div ucast T"
      using assms nz by (simp add: retarget_preclamp_def Let_def)
    show ?thesis using False
      by (simp add: r Let_def multiplicand_def unat_div unat_word_ariths unat_ucast_64_256
          unat_ucast_32_256)
  qed
qed

lemma retarget_preclamp_Inr:
  "0 < sint T \<Longrightarrow> \<exists>r. retarget_preclamp old pl a T = Inr r"
proof -
  assume "0 < sint T"
  then have "T \<noteq> 0" by auto
  then have "(ucast T :: 256 word) \<noteq> 0" by (simp add: ucast_64_256_eq_0)
  then show ?thesis by (simp add: retarget_preclamp_def Let_def)
qed

lemma multiplicand_le: "2 * multiplicand old pl \<le> (if fShift old pl then unat old else 2 * unat old)"
  by (simp add: multiplicand_def)

lemma sint_neg_unat: "sint (T::64 word) < 0 \<Longrightarrow> 2 ^ 63 \<le> unat T"
proof -
  assume neg: "sint T < 0"
  have ge: "- (2 ^ 63) \<le> sint T" using sint_ge [of T] by simp
  have "uint T = sint T mod 2 ^ 64" by (simp add: uint_sint take_bit_eq_mod)
  also have "\<dots> = (sint T + 2 ^ 64) mod 2 ^ 64" by simp
  also have "\<dots> = sint T + 2 ^ 64" using neg ge by (intro mod_pos_pos_trivial) simp_all
  finally have "2 ^ 63 \<le> uint T" using ge by simp
  moreover have "int (unat T) = uint T" by (rule uint_nat [symmetric])
  ultimately have "int (2 ^ 63) \<le> int (unat T)" by simp
  then show ?thesis by (simp only: of_nat_le_iff)
qed

lemma multiplier_le:
  fixes T :: int64
  assumes T: "T \<noteq> 0"
  shows "unat (word_of_int (clamp_timespan a (sint T)) :: 32 word) \<le> 4 * unat T"
proof (cases "0 < sint T")
  case True
  let ?c = "clamp_timespan a (sint T)"
  have Tn: "int (unat T) = sint T" using True by (rule sint_pos_unat)
  have c: "0 \<le> ?c" "?c \<le> sint T * 4" using clamp_timespan_bounds [OF True] by auto
  have "unat (word_of_int ?c :: 32 word) \<le> nat ?c" using c(1) by (rule unat_uint32_of_int_le)
  also have "\<dots> \<le> 4 * unat T" using c(2) Tn by linarith
  finally show ?thesis .
next
  case False
  moreover have "sint T \<noteq> 0" using T by (simp add: signed_eq_0_iff)
  ultimately have "sint T < 0" by simp
  then have "2 ^ 63 \<le> unat T" by (rule sint_neg_unat)
  moreover have "unat (word_of_int (clamp_timespan a (sint T)) :: 32 word) < 2 ^ 32"
    using unsigned_less [of "word_of_int (clamp_timespan a (sint T)) :: 32 word"] by simp
  ultimately show ?thesis by simp
qed

lemma retarget_preclamp_nonzero:
  "T \<noteq> 0 \<Longrightarrow> \<exists>r. retarget_preclamp old pl a T = Inr r"
  by (simp add: retarget_preclamp_def Let_def ucast_64_256_eq_0)

lemma preclamp_upper:
  assumes r: "retarget_preclamp old pl (clamp_timespan a (sint T)) T = Inr r"
  shows "unat r \<le> 4 * unat old"
proof -
  let ?c = "clamp_timespan a (sint T)"
  let ?A = "unat (word_of_int ?c :: 32 word)"
  let ?m = "multiplicand old pl"
  let ?q = "((?m * ?A) mod 2 ^ 256) div unat T"
  have nz: "T \<noteq> 0"
    using r by (auto simp: retarget_preclamp_def Let_def ucast_64_256_eq_0 split: if_splits)
  then have Tpos: "0 < unat T" by (simp add: unat_gt_0)
  have A: "?A \<le> 4 * unat T" using nz by (rule multiplier_le)
  have mA: "?m * ?A \<le> ?m * (4 * unat T)" using A by (rule mult_le_mono2)
  have "?q \<le> (?m * ?A) div unat T" by (rule div_le_mono) simp
  also have "\<dots> \<le> (?m * (4 * unat T)) div unat T" using mA by (rule div_le_mono)
  also have "\<dots> = 4 * ?m" using Tpos by simp
  finally have q: "?q \<le> 4 * ?m" .
  have u: "unat r = (if fShift old pl then (2 * ?q) mod 2 ^ 256 else ?q)"
    using retarget_preclamp_unat [OF r] by (simp add: Let_def)
  show ?thesis
  proof (cases "fShift old pl")
    case True
    then have "unat r \<le> 2 * ?q" by (simp add: u)
    also have "\<dots> \<le> 8 * ?m" using q by simp
    also have "\<dots> \<le> 4 * unat old" using True by (simp add: multiplicand_def)
    finally show ?thesis .
  next
    case False
    then show ?thesis using q by (simp add: u multiplicand_def)
  qed
qed

lemma preclamp_exact:
  assumes T: "0 < sint T" and T32: "sint T * 4 < 2 ^ 32" and no: "no_overflow old pl T"
    and c: "0 \<le> c" "c \<le> sint T * 4"
  shows "\<exists>r. retarget_preclamp old pl c T = Inr r
             \<and> unat r = (if fShift old pl then 2 * ((multiplicand old pl * nat c) div unat T)
                         else (multiplicand old pl * nat c) div unat T)"
proof -
  let ?m = "multiplicand old pl"
  obtain r where r: "retarget_preclamp old pl c T = Inr r"
    using retarget_preclamp_Inr [OF T] by blast
  have Tn: "int (unat T) = sint T" using T by (rule sint_pos_unat)
  have Tpos: "0 < unat T" using T Tn by linarith
  have A: "unat (word_of_int c :: 32 word) = nat c"
    using c T32 by (intro unat_uint32_of_int_eq) auto
  have cn: "nat c \<le> 4 * unat T" using c Tn by linarith
  have "?m * nat c \<le> ?m * (4 * unat T)" using cn by (rule mult_le_mono2)
  also have "\<dots> < 2 ^ 256" using no by (simp add: no_overflow_def)
  finally have p: "?m * nat c < 2 ^ 256" .
  have "?m * nat c \<le> ?m * (4 * unat T)" using cn by (rule mult_le_mono2)
  then have "(?m * nat c) div unat T \<le> (?m * (4 * unat T)) div unat T"
    by (rule div_le_mono)
  also have "\<dots> = 4 * ?m" using Tpos by simp
  finally have q: "(?m * nat c) div unat T \<le> 4 * ?m" .
  have s: "fShift old pl \<Longrightarrow> 2 * ((?m * nat c) div unat T) < 2 ^ 256"
  proof -
    assume "fShift old pl"
    then have "8 * ?m < 2 ^ 256" using no by (simp add: no_overflow_def)
    with q show ?thesis by linarith
  qed
  have "unat r = (if fShift old pl then 2 * ((?m * nat c) div unat T)
                  else (?m * nat c) div unat T)"
    using retarget_preclamp_unat [OF r] p s by (simp add: Let_def A)
  with r show ?thesis by blast
qed

lemma bits_le_256: "bits a \<le> 256"
proof -
  have "unat a < 2 ^ 256" using unsigned_less [of a] by simp
  then show ?thesis by (simp add: bits_def floorlog_le_iff)
qed

lemma bits_eq_0_iff: "bits a = 0 \<longleftrightarrow> a = 0"
  by (simp add: bits_def floorlog_eq_zero_iff unat_eq_0)

lemma unat_of_nat_small: "n \<le> 256 \<Longrightarrow> unat (of_nat n :: 32 word) = n"
proof -
  assume "n \<le> 256"
  then have lt: "n < 2 ^ 32" by (rule le_less_trans) simp
  have "unat (of_nat n :: 32 word) = n mod 2 ^ 32" by (simp add: unat_of_nat)
  also have "\<dots> = n" using lt by (rule mod_less)
  finally show ?thesis .
qed

lemma unat_of_nat_bits: "unat (of_nat (bits a) :: 32 word) = bits a"
  using bits_le_256 by (rule unat_of_nat_small)

lemma not_gt_max: "\<not> (x :: 32 word) > - 1"
  using word_order.extremum [of x] by (simp only: not_less)

lemma fShift_iff: "fShift old pl \<longleftrightarrow> pl \<noteq> 0 \<and> bits pl \<le> bits old"
proof (cases "pl = 0")
  case True
  then have z: "bits pl = 0" by (simp only: bits_eq_0_iff)
  have "fShift old pl \<longleftrightarrow> (of_nat (bits old) :: 32 word) > - 1"
    unfolding fShift_def z by simp
  then show ?thesis using True not_gt_max by blast
next
  case False
  then have pos: "1 \<le> bits pl" using bits_eq_0_iff [of pl] by (simp add: Suc_leI)
  have l: "bits pl - 1 \<le> 256" using bits_le_256 [of pl] by (rule le_trans [OF diff_le_self])
  have u: "unat (of_nat (bits pl - 1) :: 32 word) = bits pl - 1"
    using l by (rule unat_of_nat_small)
  have e: "(of_nat (bits pl) :: 32 word) - 1 = of_nat (bits pl - 1)"
    using of_nat_diff [OF pos, where ?'a = "32 word"] by simp
  have "fShift old pl \<longleftrightarrow> bits pl - 1 < bits old"
    unfolding fShift_def e word_less_nat_alt u unat_of_nat_bits ..
  also have "\<dots> \<longleftrightarrow> bits pl \<le> bits old" using pos by linarith
  finally show ?thesis using False by simp
qed

text \<open>
  C5 (amended).  For a nonzero target timespan the magnitude before the clamp to
  the limit is at most four times the previous magnitude, and the magnitude after
  that clamp does not exceed the limit.  When moreover the target timespan is a
  positive multiple of 4 below \<open>2 ^ 30\<close> and the 256-bit operations do not wrap, the
  magnitude before the clamp is at least a quarter of the previous magnitude up to
  the rounding of the shift and of the division: \<open>old \<le> 4 * new + 7\<close>.
\<close>

theorem retarget_clamp_bounds:
  assumes nz: "nTargetTimespan \<noteq> 0"
  shows "\<exists>pre bn.
           retarget_preclamp (fst (SetCompact (nBits pindexLast)))
               (UintToArith256 (powLimit params))
               (clamp_timespan (GetBlockTime pindexLast - sint nFirstBlockTime)
                  (sint nTargetTimespan))
               nTargetTimespan = Inr pre
         \<and> retarget_magnitude pindexLast nFirstBlockTime params nTargetTimespan = Inr bn
         \<and> unat pre \<le> 4 * unat (fst (SetCompact (nBits pindexLast)))
         \<and> bn \<le> UintToArith256 (powLimit params)
         \<and> (0 < sint nTargetTimespan \<and> 4 dvd sint nTargetTimespan
              \<and> sint nTargetTimespan * 4 < 2 ^ 32
              \<and> no_overflow (fst (SetCompact (nBits pindexLast)))
                    (UintToArith256 (powLimit params)) nTargetTimespan
            \<longrightarrow> unat (fst (SetCompact (nBits pindexLast))) \<le> 4 * unat pre + 7)"
proof -
  let ?old = "fst (SetCompact (nBits pindexLast))"
  let ?pl = "UintToArith256 (powLimit params)"
  let ?T = nTargetTimespan
  let ?c = "clamp_timespan (GetBlockTime pindexLast - sint nFirstBlockTime) (sint ?T)"
  let ?m = "multiplicand ?old ?pl"
  obtain pre where pre: "retarget_preclamp ?old ?pl ?c ?T = Inr pre"
    using retarget_preclamp_nonzero [OF nz] by blast
  define bn where "bn = (if pre > ?pl then ?pl else pre)"
  have mag: "retarget_magnitude pindexLast nFirstBlockTime params ?T = Inr bn"
    by (simp add: retarget_magnitude_def Let_def pre bn_def)
  have up: "unat pre \<le> 4 * unat ?old" using pre by (rule preclamp_upper)
  have fin: "bn \<le> ?pl" by (auto simp add: bn_def)
  have low: "unat ?old \<le> 4 * unat pre + 7"
    if T: "0 < sint ?T" and d: "4 dvd sint ?T" and T32: "sint ?T * 4 < 2 ^ 32"
      and no: "no_overflow ?old ?pl ?T"
  proof -
    have Tn: "int (unat ?T) = sint ?T" using T by (rule sint_pos_unat)
    have c: "sint ?T div 4 \<le> ?c" "?c \<le> sint ?T * 4" "0 \<le> ?c"
      using clamp_timespan_bounds [OF T] by auto
    from d obtain k where k: "sint ?T = 4 * k" by (auto simp: dvd_def)
    with T have kpos: "0 < k" by simp
    have Tk: "unat ?T = 4 * nat k" using Tn k kpos by linarith
    have ck: "nat k \<le> nat ?c" using c(1) k by simp
    from preclamp_exact [OF T T32 no c(3) c(2)] pre
    have u: "unat pre = (if fShift ?old ?pl then 2 * ((?m * nat ?c) div unat ?T)
                         else (?m * nat ?c) div unat ?T)"
      by simp
    have "?m * nat k \<le> ?m * nat ?c" using ck by (rule mult_le_mono2)
    then have "(?m * nat k) div unat ?T \<le> (?m * nat ?c) div unat ?T" by (rule div_le_mono)
    moreover have "(?m * nat k) div unat ?T = ?m div 4"
      using kpos by (simp add: Tk)
    ultimately have q: "?m div 4 \<le> (?m * nat ?c) div unat ?T" by simp
    show ?thesis
    proof (cases "fShift ?old ?pl")
      case True
      then have a: "unat ?old div 2 div 4 \<le> (?m * nat ?c) div unat ?T"
        using q by (simp add: multiplicand_def)
      have b: "unat pre = 2 * ((?m * nat ?c) div unat ?T)" using True by (simp add: u)
      from a b show ?thesis by linarith
    next
      case False
      then have a: "unat ?old div 4 \<le> (?m * nat ?c) div unat ?T"
        using q by (simp add: multiplicand_def)
      have b: "unat pre = (?m * nat ?c) div unat ?T" using False by (simp add: u)
      from a b show ?thesis by linarith
    qed
  qed
  from pre mag up fin low show ?thesis by blast
qed

text \<open>
  C6 (amended).  For a positive target timespan below \<open>2 ^ 30\<close>, and a previous
  magnitude for which the 256-bit operations do not wrap, the new magnitude is
  non-decreasing in the actual timespan.
\<close>

theorem retarget_monotone:
  assumes T: "0 < sint nTargetTimespan"
    and T32: "sint nTargetTimespan * 4 < 2 ^ 32"
    and no: "no_overflow (fst (SetCompact (nBits pindexLast)))
               (UintToArith256 (powLimit params)) nTargetTimespan"
    and le: "GetBlockTime pindexLast - sint nFirstBlockTime1
             \<le> GetBlockTime pindexLast - sint nFirstBlockTime2"
  shows "\<exists>bn1 bn2.
           retarget_magnitude pindexLast nFirstBlockTime1 params nTargetTimespan = Inr bn1
         \<and> retarget_magnitude pindexLast nFirstBlockTime2 params nTargetTimespan = Inr bn2
         \<and> bn1 \<le> bn2"
proof -
  let ?old = "fst (SetCompact (nBits pindexLast))"
  let ?pl = "UintToArith256 (powLimit params)"
  let ?T = nTargetTimespan
  let ?c1 = "clamp_timespan (GetBlockTime pindexLast - sint nFirstBlockTime1) (sint ?T)"
  let ?c2 = "clamp_timespan (GetBlockTime pindexLast - sint nFirstBlockTime2) (sint ?T)"
  let ?m = "multiplicand ?old ?pl"
  have c1: "?c1 \<le> sint ?T * 4" "0 \<le> ?c1" and c2: "?c2 \<le> sint ?T * 4" "0 \<le> ?c2"
    using clamp_timespan_bounds [OF T] by auto
  have c12: "?c1 \<le> ?c2" using T le by (rule clamp_timespan_mono)
  obtain r1 where r1: "retarget_preclamp ?old ?pl ?c1 ?T = Inr r1"
    and u1: "unat r1 = (if fShift ?old ?pl then 2 * ((?m * nat ?c1) div unat ?T)
                        else (?m * nat ?c1) div unat ?T)"
    using preclamp_exact [OF T T32 no c1(2) c1(1)] by blast
  obtain r2 where r2: "retarget_preclamp ?old ?pl ?c2 ?T = Inr r2"
    and u2: "unat r2 = (if fShift ?old ?pl then 2 * ((?m * nat ?c2) div unat ?T)
                        else (?m * nat ?c2) div unat ?T)"
    using preclamp_exact [OF T T32 no c2(2) c2(1)] by blast
  have "nat ?c1 \<le> nat ?c2" using c12 by simp
  then have "?m * nat ?c1 \<le> ?m * nat ?c2" by (rule mult_le_mono2)
  then have "(?m * nat ?c1) div unat ?T \<le> (?m * nat ?c2) div unat ?T" by (rule div_le_mono)
  then have "unat r1 \<le> unat r2" by (simp add: u1 u2)
  then have r12: "r1 \<le> r2" by (simp add: word_le_nat_alt)
  have m1: "retarget_magnitude pindexLast nFirstBlockTime1 params ?T
            = Inr (if r1 > ?pl then ?pl else r1)"
    by (simp add: retarget_magnitude_def Let_def r1)
  have m2: "retarget_magnitude pindexLast nFirstBlockTime2 params ?T
            = Inr (if r2 > ?pl then ?pl else r2)"
    by (simp add: retarget_magnitude_def Let_def r2)
  have "(if r1 > ?pl then ?pl else r1) \<le> (if r2 > ?pl then ?pl else r2)"
    using r12 by auto
  with m1 m2 show ?thesis by blast
qed

text \<open>
  C7 (amended).  The shift is applied exactly when the limit is nonzero and the bit
  length of the previous magnitude is at least the bit length of the limit.  For a
  positive target timespan below \<open>2 ^ 30\<close>, when the 256-bit operations do not wrap,
  the magnitude before the clamp is \<open>floor (m * actualTimespan / targetTimespan)\<close>
  for the unshifted magnitude \<open>m\<close>, and twice that value for the halved magnitude
  \<open>m\<close> when the shift is applied.
\<close>

theorem shift_rule:
  "(fShift bnOld bnPowLimit \<longleftrightarrow> bnPowLimit \<noteq> 0 \<and> bits bnPowLimit \<le> bits bnOld)
   \<and> (0 < sint nTargetTimespan \<and> sint nTargetTimespan * 4 < 2 ^ 32
        \<and> no_overflow bnOld bnPowLimit nTargetTimespan
      \<longrightarrow> (\<exists>r. retarget_preclamp bnOld bnPowLimit
                    (clamp_timespan a (sint nTargetTimespan)) nTargetTimespan = Inr r
               \<and> unat r =
                   (if fShift bnOld bnPowLimit
                    then 2 * ((unat bnOld div 2
                                * nat (clamp_timespan a (sint nTargetTimespan)))
                              div unat nTargetTimespan)
                    else (unat bnOld * nat (clamp_timespan a (sint nTargetTimespan)))
                           div unat nTargetTimespan)))"
proof -
  have 2: "\<exists>r. retarget_preclamp bnOld bnPowLimit
                    (clamp_timespan a (sint nTargetTimespan)) nTargetTimespan = Inr r
               \<and> unat r =
                   (if fShift bnOld bnPowLimit
                    then 2 * ((unat bnOld div 2
                                * nat (clamp_timespan a (sint nTargetTimespan)))
                              div unat nTargetTimespan)
                    else (unat bnOld * nat (clamp_timespan a (sint nTargetTimespan)))
                           div unat nTargetTimespan)"
    if T: "0 < sint nTargetTimespan" and T32: "sint nTargetTimespan * 4 < 2 ^ 32"
      and no: "no_overflow bnOld bnPowLimit nTargetTimespan"
  proof -
    have c: "clamp_timespan a (sint nTargetTimespan) \<le> sint nTargetTimespan * 4"
      "0 \<le> clamp_timespan a (sint nTargetTimespan)"
      using clamp_timespan_bounds [OF T] by auto
    from preclamp_exact [OF T T32 no c(2) c(1)] show ?thesis
      by (auto simp: multiplicand_def)
  qed
  with fShift_iff [of bnOld bnPowLimit] show ?thesis by blast
qed

lemma example_old: "fst (SetCompact (nBits block1)) = 0xfffff * 2 ^ 216"
  by (simp add: block1_def SetCompact_example_limit)

lemma example_fShift:
  "fShift (0xfffff * 2 ^ 216) (UintToArith256 (powLimit example_params))"
  by (simp add: fShift_def bits_def compute_floorlog example_params_def UintToArith256_def)

lemma example_no_overflow:
  "no_overflow (0xfffff * 2 ^ 216) (UintToArith256 (powLimit example_params)) 300"
  using example_fShift by (simp add: no_overflow_def multiplicand_def)

text \<open>
  The lower bound fails through the truncations: with a target timespan of 10 the
  lower clamp is \<open>10 / 4 = 2\<close>, and the previous magnitude 100 becomes
  \<open>100 * 2 / 10 = 20\<close>, less than a quarter of 100.
\<close>

theorem retarget_clamp_bounds_counterexample:
  "fst (SetCompact 0x01640000) = 100
   \<and> clamp_timespan (GetBlockTime (CBlockIndex 1 1000 0x01640000 None) - sint (1000 :: int64))
         (sint (10 :: int64)) = 2
   \<and> retarget_preclamp 100 (UintToArith256 (powLimit example_params)) 2 10 = Inr 20
   \<and> retarget_magnitude (CBlockIndex 1 1000 0x01640000 None) 1000 example_params 10 = Inr 20
   \<and> \<not> unat (100 :: arith_uint256) \<le> 4 * unat (20 :: arith_uint256)
   \<and> unat (20 :: arith_uint256) < unat (100 :: arith_uint256) div 4"
proof -
  have s: "SetCompact 0x01640000 = (100, False, False)"
    by (simp add: SetCompact_def Let_def)
  have c: "clamp_timespan (GetBlockTime (CBlockIndex 1 1000 0x01640000 None)
             - sint (1000 :: int64)) (sint (10 :: int64)) = 2"
    by (simp add: clamp_timespan_def GetBlockTime_def signed_divide_int_def)
  have f: "\<not> fShift 100 (UintToArith256 (powLimit example_params))"
    by (simp add: fShift_def bits_def compute_floorlog example_params_def UintToArith256_def)
  have p: "retarget_preclamp 100 (UintToArith256 (powLimit example_params)) 2 10 = Inr 20"
    by (simp add: retarget_preclamp_def Let_def f)
  have l: "\<not> (20 :: arith_uint256) > UintToArith256 (powLimit example_params)"
    by (simp add: example_params_def UintToArith256_def)
  have m: "retarget_magnitude (CBlockIndex 1 1000 0x01640000 None) 1000 example_params 10
           = Inr 20"
    unfolding retarget_magnitude_def Let_def CBlockIndex.sel s fst_conv c p
    using l by simp
  show ?thesis
    unfolding s fst_conv using c p m by simp
qed

theorem retarget_clamp_bounds_witness:
  "\<exists>pre bn.
      retarget_preclamp (fst (SetCompact (nBits block1)))
        (UintToArith256 (powLimit example_params))
        (clamp_timespan (GetBlockTime block1 - sint (1000 :: int64)) (sint (300 :: int64)))
        300 = Inr pre
    \<and> retarget_magnitude block1 1000 example_params 300 = Inr bn
    \<and> unat pre \<le> 4 * unat (fst (SetCompact (nBits block1)))
    \<and> bn \<le> UintToArith256 (powLimit example_params)
    \<and> unat (fst (SetCompact (nBits block1))) \<le> 4 * unat pre + 7"
proof -
  have T: "(300 :: int64) \<noteq> 0" by simp
  have h: "0 < sint (300 :: int64)" "4 dvd sint (300 :: int64)"
    "sint (300 :: int64) * 4 < 2 ^ 32" by simp_all
  have no: "no_overflow (fst (SetCompact (nBits block1)))
              (UintToArith256 (powLimit example_params)) 300"
    by (simp only: example_old example_no_overflow)
  from retarget_clamp_bounds [OF T, of block1 example_params 1000] h no
  show ?thesis by blast
qed

text \<open>
  With the limit \<open>2 ^ 236 - 1\<close>, the previous target at the limit and a target timespan
  of two weeks, the product wraps between the actual timespans 2097152 and 2097155:
  the longer timespan gives the smaller magnitude.
\<close>

theorem retarget_monotone_counterexample:
  "GetBlockTime (CBlockIndex 1 3000000 0x1e0fffff None) - sint (902848 :: int64)
     \<le> GetBlockTime (CBlockIndex 1 3000000 0x1e0fffff None) - sint (902845 :: int64)
   \<and> retarget_magnitude (CBlockIndex 1 3000000 0x1e0fffff None) 902848 example_params 1209600
       = Inr (2 ^ 236 - 1)
   \<and> retarget_magnitude (CBlockIndex 1 3000000 0x1e0fffff None) 902845 example_params 1209600
       = Inr 91292679903913702816960978870989877833929221948941785082065661910
   \<and> (91292679903913702816960978870989877833929221948941785082065661910 :: arith_uint256)
       < 2 ^ 236 - 1"
proof -
  have c1: "clamp_timespan (GetBlockTime (CBlockIndex 1 3000000 0x1e0fffff None)
              - sint (902848 :: int64)) (sint (1209600 :: int64)) = 2097152"
    and c2: "clamp_timespan (GetBlockTime (CBlockIndex 1 3000000 0x1e0fffff None)
              - sint (902845 :: int64)) (sint (1209600 :: int64)) = 2097155"
    by (simp_all add: clamp_timespan_def GetBlockTime_def signed_divide_int_def)
  have p1: "retarget_preclamp (0xfffff * 2 ^ 216) (UintToArith256 (powLimit example_params))
              2097152 1209600
            = Inr 191454991417616810143105797044633120735553481229988441324855657089162612"
    using example_fShift by (simp add: retarget_preclamp_def Let_def)
  have p2: "retarget_preclamp (0xfffff * 2 ^ 216) (UintToArith256 (powLimit example_params))
              2097155 1209600
            = Inr 91292679903913702816960978870989877833929221948941785082065661910"
    using example_fShift by (simp add: retarget_preclamp_def Let_def)
  have l: "UintToArith256 (powLimit example_params) = 2 ^ 236 - 1"
    by (simp add: example_params_def UintToArith256_def)
  have m1: "retarget_magnitude (CBlockIndex 1 3000000 0x1e0fffff None) 902848 example_params
              1209600 = Inr (2 ^ 236 - 1)"
    unfolding retarget_magnitude_def Let_def c1 CBlockIndex.sel SetCompact_example_limit fst_conv p1
    by (simp add: l)
  have m2: "retarget_magnitude (CBlockIndex 1 3000000 0x1e0fffff None) 902845 example_params
              1209600 = Inr 91292679903913702816960978870989877833929221948941785082065661910"
    unfolding retarget_magnitude_def Let_def c2 CBlockIndex.sel SetCompact_example_limit fst_conv p2
    by (simp add: l)
  show ?thesis
    by (simp only: m1 m2) (simp add: GetBlockTime_def)
qed

theorem retarget_monotone_witness:
  "\<exists>bn1 bn2.
      retarget_magnitude block1 1000 example_params 300 = Inr bn1
    \<and> retarget_magnitude block1 900 example_params 300 = Inr bn2
    \<and> bn1 \<le> bn2"
proof -
  have T: "0 < sint (300 :: int64)" "sint (300 :: int64) * 4 < 2 ^ 32" by simp_all
  have no: "no_overflow (fst (SetCompact (nBits block1)))
              (UintToArith256 (powLimit example_params)) 300"
    by (simp only: example_old example_no_overflow)
  have le: "GetBlockTime block1 - sint (1000 :: int64) \<le> GetBlockTime block1 - sint (900 :: int64)"
    by simp
  from retarget_monotone [OF T no le] show ?thesis .
qed

text \<open>
  A previous magnitude of bit length 235, one less than the 236 of the limit, is not
  shifted; and where the product wraps (a previous target at the limit, a target
  timespan of two weeks, an actual timespan of 2097155) the result is not the
  quotient of the exact product.
\<close>

theorem shift_rule_counterexample:
  "bits (fst (SetCompact 0x1e07ffff)) = 235
   \<and> bits (UintToArith256 (powLimit example_params)) = 236
   \<and> \<not> fShift (fst (SetCompact 0x1e07ffff)) (UintToArith256 (powLimit example_params))
   \<and> retarget_preclamp (fst (SetCompact 0x1e07ffff))
        (UintToArith256 (powLimit example_params)) 100 300
       = Inr 18404621820677613914097116326729506649725517627422563964062979826472277
   \<and> fShift (fst (SetCompact 0x1e0fffff)) (UintToArith256 (powLimit example_params))
   \<and> retarget_preclamp (fst (SetCompact 0x1e0fffff))
        (UintToArith256 (powLimit example_params)) 2097155 1209600
       = Inr 91292679903913702816960978870989877833929221948941785082065661910
   \<and> 2 * ((unat (fst (SetCompact 0x1e0fffff)) div 2 * 2097155) div 1209600)
       = (191455265296178904283363837147301469953617887939871029694856484195147906 :: nat)"
proof -
  have s: "SetCompact 0x1e07ffff = (0x7ffff * 2 ^ 216, False, False)"
    by (simp add: SetCompact_def Let_def)
  have b1: "bits (0x7ffff * 2 ^ 216) = 235"
    by (simp add: bits_def compute_floorlog)
  have b2: "bits (UintToArith256 (powLimit example_params)) = 236"
    by (simp add: bits_def compute_floorlog example_params_def UintToArith256_def)
  have f: "\<not> fShift (0x7ffff * 2 ^ 216) (UintToArith256 (powLimit example_params))"
    unfolding fShift_iff b1 b2 by simp
  have p: "retarget_preclamp (0x7ffff * 2 ^ 216) (UintToArith256 (powLimit example_params))
             100 300
           = Inr 18404621820677613914097116326729506649725517627422563964062979826472277"
    using f by (simp add: retarget_preclamp_def Let_def)
  have p2: "retarget_preclamp (0xfffff * 2 ^ 216) (UintToArith256 (powLimit example_params))
              2097155 1209600
            = Inr 91292679903913702816960978870989877833929221948941785082065661910"
    using example_fShift by (simp add: retarget_preclamp_def Let_def)
  have n: "2 * ((unat (0xfffff * 2 ^ 216 :: arith_uint256) div 2 * 2097155) div 1209600)
       = (191455265296178904283363837147301469953617887939871029694856484195147906 :: nat)"
    by simp
  show ?thesis
    unfolding s SetCompact_example_limit fst_conv
    using b1 b2 f p example_fShift p2 n by blast
qed

theorem shift_rule_witness:
  "fShift (fst (SetCompact (nBits block1))) (UintToArith256 (powLimit example_params))
   \<and> (\<exists>r. retarget_preclamp (fst (SetCompact (nBits block1)))
              (UintToArith256 (powLimit example_params)) 150 300 = Inr r
          \<and> unat r = 2 * ((unat (fst (SetCompact (nBits block1))) div 2 * 150) div 300))"
proof -
  have T: "0 < sint (300 :: int64)" "sint (300 :: int64) * 4 < 2 ^ 32" by simp_all
  have no: "no_overflow (fst (SetCompact (nBits block1)))
              (UintToArith256 (powLimit example_params)) 300"
    by (simp only: example_old example_no_overflow)
  have c: "clamp_timespan 150 300 = 150"
    by (simp add: clamp_timespan_def signed_divide_int_def)
  have f: "fShift (fst (SetCompact (nBits block1))) (UintToArith256 (powLimit example_params))"
    by (simp only: example_old example_fShift)
  from shift_rule [of "fst (SetCompact (nBits block1))"
      "UintToArith256 (powLimit example_params)" 300 150] T no f
  show ?thesis by (simp add: c)
qed

subsection \<open>The compact codec\<close>

lemma mask23: "(0x007fffff :: 32 word) = mask 23"
  by (simp add: mask_eq_exp_minus_1)

lemma exp23: "(0x00800000 :: 32 word) = 2 ^ 23"
  by simp

lemma len32': "LENGTH(32) = 32"
  by simp

lemma parts_drop:
  fixes c :: "32 word"
  assumes c: "take_bit 23 c = c" and s: "s < 256"
  shows "unat (drop_bit 24 (c OR push_bit 24 (of_nat s))) = s"
proof -
  have "drop_bit 24 c = drop_bit 24 (take_bit 23 c)" by (simp only: c)
  also have "\<dots> = 0" by (simp add: drop_bit_take_bit)
  finally have 1: "drop_bit 24 c = 0" .
  have 2: "drop_bit 24 (push_bit 24 (of_nat s :: 32 word)) = take_bit 8 (of_nat s)"
    by (rule bit_eqI) (auto simp add: bit_simps)
  have "s < 2 ^ 32" using s by simp
  then have 3: "unat (of_nat s :: 32 word) = s" by (simp only: unat_of_nat len32' mod_less)
  have "unat (take_bit 8 (of_nat s :: 32 word)) = take_bit 8 (unat (of_nat s :: 32 word))"
    by (rule unsigned_take_bit_eq)
  also have "\<dots> = s" using s by (simp only: 3) (simp add: take_bit_nat_eq_self)
  finally show ?thesis by (simp add: 1 2)
qed

lemma parts_mantissa:
  fixes c :: "32 word"
  assumes c: "take_bit 23 c = c"
  shows "(c OR push_bit 24 x) AND 0x007fffff = c"
proof -
  have "(c OR push_bit 24 x) AND mask 23 = take_bit 23 (c OR push_bit 24 x)"
    by (simp only: take_bit_eq_mask)
  also have "\<dots> = take_bit 23 c" by (simp add: take_bit_push_bit)
  finally show ?thesis by (simp only: mask23 c)
qed

lemma parts_sign:
  fixes c :: "32 word"
  assumes c: "take_bit 23 c = c"
  shows "(c OR push_bit 24 x) AND 0x00800000 = 0"
proof -
  have "\<not> bit c 23" using bit_take_bit_iff [of 23 c 23] c by simp
  then have "\<not> bit (c OR push_bit 24 x) 23" by (simp add: bit_or_iff bit_push_bit_iff)
  then have "(c OR push_bit 24 x) AND 2 ^ 23 = 0" by (rule and_exp_eq_0_iff_not_bit [THEN iffD2])
  then show ?thesis by (simp only: exp23)
qed

lemma SetCompact_of_parts:
  fixes c :: "32 word"
  assumes c: "take_bit 23 c = c" and s: "s < 256"
  shows "SetCompact (c OR push_bit 24 (of_nat s)) =
     (if s \<le> 3 then ucast (drop_bit (8 * (3 - s)) c) else push_bit (8 * (s - 3)) (ucast c),
      False,
      (if s \<le> 3 then drop_bit (8 * (3 - s)) c else c) \<noteq> 0
        \<and> (s > 34 \<or> ((if s \<le> 3 then drop_bit (8 * (3 - s)) c else c) > 0xff \<and> s > 33)
           \<or> ((if s \<le> 3 then drop_bit (8 * (3 - s)) c else c) > 0xffff \<and> s > 32)))"
  unfolding SetCompact_def Let_def parts_drop [OF c s] parts_mantissa [OF c] parts_sign [OF c]
  by simp

lemma pow256: "(256::nat) ^ k = 2 ^ (8 * k)"
  by (simp add: power_mult)

lemma bits_upper: "unat a < 2 ^ bits a"
proof (cases "a = 0")
  case True
  then show ?thesis by (simp add: bits_def)
next
  case False
  then have "0 < unat a" by (simp add: unat_gt_0)
  then show ?thesis using floorlog_bounds [of "unat a" 2] by (simp add: bits_def)
qed

lemma bits_lower: "a \<noteq> 0 \<Longrightarrow> 2 ^ (bits a - 1) \<le> unat a"
proof -
  assume "a \<noteq> 0"
  then have "0 < unat a" by (simp add: unat_gt_0)
  then show ?thesis using floorlog_bounds [of "unat a" 2] by (simp add: bits_def)
qed

lemma size_upper: "unat a < 256 ^ ((bits a + 7) div 8)"
proof -
  have "bits a \<le> 8 * ((bits a + 7) div 8)" by arith
  then have "(2::nat) ^ bits a \<le> 2 ^ (8 * ((bits a + 7) div 8))"
    by (rule power_increasing) simp
  with bits_upper [of a] show ?thesis by (simp only: pow256)
qed

lemma size_le_32: "(bits a + 7) div 8 \<le> 32"
  using bits_le_256 [of a] by arith

lemma size_eq_0_iff: "(bits a + 7) div 8 = 0 \<longleftrightarrow> a = 0"
  using bits_eq_0_iff [of a] by arith

lemma nat_bit_top:
  fixes n :: nat
  assumes "n < 2 ^ Suc k" and "2 ^ k \<le> n"
  shows "bit n k"
proof -
  have "n div 2 ^ k < 2" using assms(1) by (simp add: less_mult_imp_div_less)
  moreover have "1 \<le> n div 2 ^ k" using assms(2) by (simp add: div_greater_zero_iff Suc_leI)
  ultimately have "n div 2 ^ k = 1" by simp
  then show ?thesis by (simp add: bit_iff_odd)
qed

lemma top_bit_set:
  assumes S: "1 \<le> (bits a + 7) div 8" and n: "2 ^ (8 * ((bits a + 7) div 8) - 1) \<le> unat a"
  shows "bit a (8 * ((bits a + 7) div 8) - 1)"
proof -
  let ?S = "(bits a + 7) div 8"
  have "Suc (8 * ?S - 1) = 8 * ?S" using S by simp
  then have "unat a < 2 ^ Suc (8 * ?S - 1)" using size_upper [of a] by (simp only: pow256)
  then have "bit (unat a) (8 * ?S - 1)" using n by (rule nat_bit_top)
  then show ?thesis by (simp add: bit_unsigned_iff)
qed

lemma unat_push_32:
  assumes "unat (w::32 word) * 256 ^ k < 2 ^ 32"
  shows "unat (push_bit (8 * k) w) = unat w * 256 ^ k"
proof -
  have "unat (push_bit (8 * k) w) = take_bit 32 (push_bit (8 * k) (unat w))"
    by (simp only: unsigned_push_bit_eq len32')
  also have "push_bit (8 * k) (unat w) = unat w * 256 ^ k"
    by (simp only: push_bit_eq_mult pow256)
  also have "take_bit 32 (unat w * 256 ^ k) = unat w * 256 ^ k"
    using assms by (rule take_bit_nat_eq_self)
  finally show ?thesis .
qed

lemma len256': "LENGTH(256) = 256"
  by simp

lemma unat_push_256:
  assumes "unat (w::256 word) * 256 ^ k < 2 ^ 256"
  shows "unat (push_bit (8 * k) w) = unat w * 256 ^ k"
proof -
  have "unat (push_bit (8 * k) w) = take_bit 256 (push_bit (8 * k) (unat w))"
    by (simp only: unsigned_push_bit_eq len256')
  also have "push_bit (8 * k) (unat w) = unat w * 256 ^ k"
    by (simp only: push_bit_eq_mult pow256)
  also have "take_bit 256 (unat w * 256 ^ k) = unat w * 256 ^ k"
    using assms by (rule take_bit_nat_eq_self)
  finally show ?thesis .
qed

lemma unat_drop: "unat (drop_bit (8 * k) w) = unat w div 256 ^ k"
  by (simp only: unat_drop_bit_eq) (simp only: drop_bit_eq_div pow256)

lemma unat_drop8: "unat (drop_bit 8 w) = unat w div 256"
  using unat_drop [of 1 w] by simp

lemma unat_ucast_256_32: "unat (a::256 word) < 2 ^ 32 \<Longrightarrow> unat (ucast a :: 32 word) = unat a"
  by (simp add: unsigned_ucast_eq take_bit_nat_eq_self)

lemma take_bit_23_self: "unat (c::32 word) < 2 ^ 23 \<Longrightarrow> take_bit 23 c = c"
proof -
  assume "unat c < 2 ^ 23"
  then have "unat (take_bit 23 c) = unat c"
    by (simp add: unsigned_take_bit_eq take_bit_nat_eq_self)
  then show ?thesis by (simp only: word_unat_eq_iff)
qed

lemma sign_bit_iff:
  fixes c :: "32 word"
  assumes "unat c < 2 ^ 24"
  shows "c AND 0x00800000 \<noteq> 0 \<longleftrightarrow> 2 ^ 23 \<le> unat c"
proof -
  have "c AND 2 ^ 23 \<noteq> 0 \<longleftrightarrow> bit c 23" using and_exp_eq_0_iff_not_bit [of c 23] by blast
  also have "\<dots> \<longleftrightarrow> bit (unat c) 23" by (simp add: bit_unsigned_iff)
  also have "\<dots> \<longleftrightarrow> 2 ^ 23 \<le> unat c"
  proof
    assume "bit (unat c) 23"
    then have "odd (unat c div 2 ^ 23)" using bit_iff_odd [of "unat c" 23] by blast
    then have "0 < unat c div 2 ^ 23" by (rule odd_pos)
    then show "2 ^ 23 \<le> unat c" by (simp add: div_greater_zero_iff)
  next
    assume "2 ^ 23 \<le> unat c"
    with assms show "bit (unat c) 23" by (intro nat_bit_top) simp_all
  qed
  finally show ?thesis by (simp only: exp23)
qed

lemma c0_small:
  assumes "(bits a + 7) div 8 \<le> 3"
  shows "unat (push_bit (8 * (3 - (bits a + 7) div 8)) (ucast a :: 32 word))
         = unat a * 256 ^ (3 - (bits a + 7) div 8)"
    and "unat a * 256 ^ (3 - (bits a + 7) div 8) < 2 ^ 24"
proof -
  let ?S = "(bits a + 7) div 8"
  have "?S + (3 - ?S) = 3" using assms by simp
  then have "(256::nat) ^ ?S * 256 ^ (3 - ?S) = 256 ^ 3"
    by (simp only: power_add [symmetric])
  moreover have "unat a * 256 ^ (3 - ?S) < 256 ^ ?S * 256 ^ (3 - ?S)"
    using size_upper [of a] by simp
  ultimately show lt: "unat a * 256 ^ (3 - ?S) < 2 ^ 24" by simp
  have "unat a \<le> unat a * 256 ^ (3 - ?S)" by simp
  then have "unat a < 2 ^ 24" using lt by (rule le_less_trans)
  then have "unat a < 2 ^ 32" by simp
  then have u: "unat (ucast a :: 32 word) = unat a" by (rule unat_ucast_256_32)
  have "unat (ucast a :: 32 word) * 256 ^ (3 - ?S) < 2 ^ 32" using lt by (simp add: u)
  then show "unat (push_bit (8 * (3 - ?S)) (ucast a :: 32 word)) = unat a * 256 ^ (3 - ?S)"
    by (simp add: unat_push_32 u)
qed

lemma c0_large:
  assumes "3 < (bits a + 7) div 8"
  shows "unat (ucast (drop_bit (8 * ((bits a + 7) div 8 - 3)) a) :: 32 word)
         = unat a div 256 ^ ((bits a + 7) div 8 - 3)"
    and "unat a div 256 ^ ((bits a + 7) div 8 - 3) < 2 ^ 24"
proof -
  let ?S = "(bits a + 7) div 8"
  have "3 + (?S - 3) = ?S" using assms by simp
  then have "(256::nat) ^ 3 * 256 ^ (?S - 3) = 256 ^ ?S"
    by (simp only: power_add [symmetric])
  then have "unat a < 256 ^ 3 * 256 ^ (?S - 3)" using size_upper [of a] by (simp only:)
  then have "unat a div 256 ^ (?S - 3) < 256 ^ 3" by (rule less_mult_imp_div_less)
  then show lt: "unat a div 256 ^ (?S - 3) < 2 ^ 24" by simp
  then have "unat (drop_bit (8 * (?S - 3)) a) < 2 ^ 32" by (simp add: unat_drop)
  then show "unat (ucast (drop_bit (8 * (?S - 3)) a) :: 32 word) = unat a div 256 ^ (?S - 3)"
    by (simp add: unat_ucast_256_32 unat_drop)
qed

lemma roundtrip_value:
  fixes n S :: nat
  assumes ex: "2 ^ 23 \<le> c0 \<Longrightarrow> 3 \<le> S \<Longrightarrow> n mod 256 ^ (S - 2) = 0"
    and ex': "\<not> 2 ^ 23 \<le> c0 \<Longrightarrow> 3 < S \<Longrightarrow> n mod 256 ^ (S - 3) = 0"
    and c0: "c0 = (if S \<le> 3 then n * 256 ^ (3 - S) else n div 256 ^ (S - 3))"
    and c1: "c1 = (if 2 ^ 23 \<le> c0 then c0 div 256 else c0)"
    and S': "S' = (if 2 ^ 23 \<le> c0 then S + 1 else S)"
  shows "(if S' \<le> 3 then c1 div 256 ^ (3 - S') else c1 * 256 ^ (S' - 3)) = n"
proof (cases "S \<le> 3")
  case small: True
  show ?thesis
  proof (cases "2 ^ 23 \<le> c0")
    case False
    then show ?thesis using small by (simp add: c0 c1 S')
  next
    case sign: True
    show ?thesis
    proof (cases "S = 3")
      case True
      then have "n mod 256 = 0" using ex [OF sign] by simp
      then have "n div 256 * 256 = n" by (simp add: mod_eq_0_iff_dvd)
      then show ?thesis using True sign by (simp add: c0 c1 S')
    next
      case False
      with small obtain k where k: "3 - S = Suc k" "3 - (S + 1) = k"
        by (cases "3 - S") auto
      have "n * 256 ^ Suc k div 256 = n * 256 ^ k" by simp
      then show ?thesis using small sign False k by (simp add: c0 c1 S')
    qed
  qed
next
  case large: False
  show ?thesis
  proof (cases "2 ^ 23 \<le> c0")
    case False
    then have "n mod 256 ^ (S - 3) = 0" using ex' large by simp
    then have "n div 256 ^ (S - 3) * 256 ^ (S - 3) = n" by (simp add: mod_eq_0_iff_dvd)
    then show ?thesis using large False by (simp add: c0 c1 S')
  next
    case sign: True
    have m: "n mod 256 ^ (S - 2) = 0" using ex [OF sign] large by simp
    have e: "S - 2 = Suc (S - 3)" using large by simp
    have "n div 256 ^ (S - 3) div 256 = n div (256 ^ (S - 3) * 256)"
      by (simp only: div_mult2_eq)
    also have "(256::nat) ^ (S - 3) * 256 = 256 ^ (S - 2)" by (simp add: e)
    finally have "n div 256 ^ (S - 3) div 256 = n div 256 ^ (S - 2)" .
    moreover have "n div 256 ^ (S - 2) * 256 ^ (S - 2) = n"
      using m by (simp add: mod_eq_0_iff_dvd)
    ultimately show ?thesis using large sign by (simp add: c0 c1 S')
  qed
qed

lemma expressible_sign:
  assumes ex: "expressible a" and S: "3 \<le> (bits a + 7) div 8"
    and sg: "2 ^ 23 \<le> unat a div 256 ^ ((bits a + 7) div 8 - 3)"
  shows "unat a mod 256 ^ ((bits a + 7) div 8 - 2) = 0"
proof -
  let ?S = "(bits a + 7) div 8"
  have "2 ^ 23 * 256 ^ (?S - 3) \<le> unat a div 256 ^ (?S - 3) * 256 ^ (?S - 3)"
    using sg by (rule mult_le_mono1)
  also have "\<dots> \<le> unat a" by simp
  finally have "2 ^ 23 * 256 ^ (?S - 3) \<le> unat a" .
  moreover have "(2::nat) ^ 23 * 256 ^ (?S - 3) = 2 ^ (8 * ?S - 1)"
  proof -
    have "23 + 8 * (?S - 3) = 8 * ?S - 1" using S by simp
    then show ?thesis by (simp only: pow256 power_add [symmetric])
  qed
  ultimately have "2 ^ (8 * ?S - 1) \<le> unat a" by simp
  then have "bit a (8 * ?S - 1)" using S by (intro top_bit_set) simp_all
  then show ?thesis using ex by (simp add: expressible_def Let_def)
qed

lemma expressible_nosign:
  assumes ex: "expressible a" and S: "3 < (bits a + 7) div 8"
  shows "unat a mod 256 ^ ((bits a + 7) div 8 - 3) = 0"
proof (cases "bit a (8 * ((bits a + 7) div 8) - 1)")
  case False
  then show ?thesis using ex by (simp add: expressible_def Let_def)
next
  case True
  let ?S = "(bits a + 7) div 8"
  have "unat a mod 256 ^ (?S - 2) = 0" using True ex by (simp add: expressible_def Let_def)
  then have "256 ^ (?S - 2) dvd unat a" by (simp add: mod_eq_0_iff_dvd)
  moreover have "(256::nat) ^ (?S - 3) dvd 256 ^ (?S - 2)" by (rule le_imp_power_dvd) simp
  ultimately have "256 ^ (?S - 3) dvd unat a" by (rule dvd_trans [rotated])
  then show ?thesis by (simp add: mod_eq_0_iff_dvd)
qed

text \<open>
  C9.  For every magnitude that is exact in the compact form, decoding its compact
  encoding gives the magnitude back, with the negative and the overflow flag clear.
\<close>

theorem SetCompact_GetCompact:
  assumes ex: "expressible a"
  shows "SetCompact (GetCompact a) = (a, False, False)"
proof -
  define S where "S = (bits a + 7) div 8"
  define c0w :: "32 word" where
    "c0w = (if S \<le> 3 then push_bit (8 * (3 - S)) (ucast a)
            else ucast (drop_bit (8 * (S - 3)) a))"
  define c0 where "c0 = (if S \<le> 3 then unat a * 256 ^ (3 - S) else unat a div 256 ^ (S - 3))"
  define c1w where "c1w = (if c0w AND 0x00800000 \<noteq> 0 then drop_bit 8 c0w else c0w)"
  define S' where "S' = (if c0w AND 0x00800000 \<noteq> 0 then S + 1 else S)"
  define c1 where "c1 = (if 2 ^ 23 \<le> c0 then c0 div 256 else c0)"
  have g: "GetCompact a = c1w OR push_bit 24 (of_nat S')"
    by (simp add: GetCompact_def Let_def S_def c0w_def c1w_def S'_def)
  have u0: "unat c0w = c0" and lt24: "c0 < 2 ^ 24"
    using c0_small [of a] c0_large [of a]
    by (auto simp add: c0w_def c0_def S_def not_le)
  have sg: "c0w AND 0x00800000 \<noteq> 0 \<longleftrightarrow> 2 ^ 23 \<le> c0"
    using sign_bit_iff [of c0w] lt24 by (simp only: u0)
  have u1: "unat c1w = c1"
    by (simp add: c1w_def c1_def sg unat_drop8 u0)
  have S'eq: "S' = (if 2 ^ 23 \<le> c0 then S + 1 else S)"
    by (simp add: S'_def sg)
  have lt16: "c1 < 2 ^ 16" if "2 ^ 23 \<le> c0"
    using that lt24 by (simp add: c1_def)
  have lt23: "c1 < 2 ^ 23"
  proof (cases "2 ^ 23 \<le> c0")
    case True
    then have "c1 < 2 ^ 16" by (rule lt16)
    then show ?thesis by simp
  next
    case False
    then show ?thesis by (simp add: c1_def)
  qed
  have S32: "S \<le> 32" unfolding S_def by (rule size_le_32)
  then have S'33: "S' \<le> 33" by (simp add: S'eq)
  then have S'256: "S' < 256" by simp
  have tb: "take_bit 23 c1w = c1w"
    using lt23 by (intro take_bit_23_self) (simp only: u1)
  note d = SetCompact_of_parts [OF tb S'256]
  have c0S: "c0 = unat a div 256 ^ (S - 3)" if "3 \<le> S"
    using that by (cases "S = 3") (simp_all add: c0_def)
  have val: "(if S' \<le> 3 then c1 div 256 ^ (3 - S') else c1 * 256 ^ (S' - 3)) = unat a"
  proof (rule roundtrip_value [where S = S and ?c0.0 = c0])
    show "unat a mod 256 ^ (S - 2) = 0" if "2 ^ 23 \<le> c0" "3 \<le> S"
      using expressible_sign [OF ex] that c0S unfolding S_def by simp
    show "unat a mod 256 ^ (S - 3) = 0" if "\<not> 2 ^ 23 \<le> c0" "3 < S"
      using expressible_nosign [OF ex] that unfolding S_def by simp
    show "c0 = (if S \<le> 3 then unat a * 256 ^ (3 - S) else unat a div 256 ^ (S - 3))"
      by (rule c0_def)
    show "c1 = (if 2 ^ 23 \<le> c0 then c0 div 256 else c0)" by (rule c1_def)
    show "S' = (if 2 ^ 23 \<le> c0 then S + 1 else S)" by (rule S'eq)
  qed
  have V: "(if S' \<le> 3 then ucast (drop_bit (8 * (3 - S')) c1w)
            else push_bit (8 * (S' - 3)) (ucast c1w)) = a"
  proof (cases "S' \<le> 3")
    case True
    then have "unat (ucast (drop_bit (8 * (3 - S')) c1w) :: 256 word) = unat a"
      using val by (simp add: unat_ucast_32_256 unat_drop u1)
    then show ?thesis using True by (simp add: word_unat_eq_iff)
  next
    case False
    then have v: "c1 * 256 ^ (S' - 3) = unat a" using val by simp
    have "unat a < 2 ^ 256" using unsigned_less [of a] by simp
    then have "unat (ucast c1w :: 256 word) * 256 ^ (S' - 3) < 2 ^ 256"
      by (simp add: unat_ucast_32_256 u1 v)
    then have "unat (push_bit (8 * (S' - 3)) (ucast c1w :: 256 word)) = unat a"
      by (simp add: unat_push_256 unat_ucast_32_256 u1 v)
    then show ?thesis using False by (simp add: word_unat_eq_iff)
  qed
  have O: "\<not> ((if S' \<le> 3 then drop_bit (8 * (3 - S')) c1w else c1w) \<noteq> 0
        \<and> (S' > 34 \<or> ((if S' \<le> 3 then drop_bit (8 * (3 - S')) c1w else c1w) > 0xff \<and> S' > 33)
           \<or> ((if S' \<le> 3 then drop_bit (8 * (3 - S')) c1w else c1w) > 0xffff \<and> S' > 32)))"
  proof (cases "S' > 32")
    case False
    then show ?thesis by simp
  next
    case True
    then have "2 ^ 23 \<le> c0" using S32 by (simp add: S'eq split: if_splits)
    then have "c1 < 2 ^ 16" by (rule lt16)
    then have "\<not> c1w > 0xffff" by (simp add: word_less_nat_alt u1)
    then show ?thesis using True S'33 by simp
  qed
  show ?thesis
    unfolding g d using V O by simp
qed

theorem SetCompact_GetCompact_witness:
  "expressible (0xfffff * 2 ^ 216)
   \<and> SetCompact (GetCompact (0xfffff * 2 ^ 216)) = (0xfffff * 2 ^ 216, False, False)
   \<and> expressible 0x80
   \<and> SetCompact (GetCompact 0x80) = (0x80, False, False)"
proof -
  have b1: "bits (0xfffff * 2 ^ 216) = 236" and b2: "bits 0x80 = 8"
    by (simp_all add: bits_def compute_floorlog)
  have e1: "expressible (0xfffff * 2 ^ 216)"
    unfolding expressible_def Let_def b1 by (simp add: bit_iff_odd drop_bit_eq_div)
  have e2: "expressible 0x80"
    unfolding expressible_def Let_def b2 by simp
  from SetCompact_GetCompact [OF e1] SetCompact_GetCompact [OF e2] e1 e2
  show ?thesis by blast
qed

end
